theory Spec2Isabelle
  imports Complex_Main "HOL-Library.AList"
begin

section \<open>Python values\<close>

text \<open>
  The inventory module is dynamically typed: \<^verbatim>\<open>add_item\<close>, \<^verbatim>\<open>remove_item\<close>,
  \<^verbatim>\<open>get_qty\<close> and \<^verbatim>\<open>check_low_items\<close> test their arguments with \<^verbatim>\<open>isinstance\<close>, and
  \<^verbatim>\<open>load_data\<close> receives whatever the JSON decoder returns.  Arguments are
  therefore Python values.  A \<^verbatim>\<open>str\<close> is a sequence of code points; a \<^verbatim>\<open>float\<close> is
  a rational (every finite double is one), an infinity or a NaN; a \<^verbatim>\<open>dict\<close> is the
  list of its items in insertion order.
\<close>

type_synonym pystr = "nat list"

definition ustr :: "string \<Rightarrow> pystr" where
  "ustr s = map of_char s"

datatype pyfloat = Finite rat | PosInf | NegInf | NaN

datatype pyval =
    PNone
  | PBool bool
  | PInt int
  | PFloat pyfloat
  | PStr pystr
  | PList "pyval list"
  | PDict "(pyval \<times> pyval) list"

text \<open>The exceptions that are raised here, with their message where they have one.\<close>

datatype exn =
    TypeError pystr
  | ValueError pystr
  | KeyError pystr
  | OverflowError pystr
  | RecursionError
  | FileNotFoundError
  | OSError
  | UnicodeDecodeError
  | UnicodeEncodeError
  | JSONDecodeError

datatype 'a result = Return 'a | Raise exn

text \<open>\<^verbatim>\<open>isinstance(x, int)\<close> holds of \<^verbatim>\<open>int\<close> and of its subclass \<^verbatim>\<open>bool\<close>; the value
  that arithmetic and comparisons then use is \<^verbatim>\<open>1\<close> for \<^verbatim>\<open>True\<close>, \<^verbatim>\<open>0\<close> for \<^verbatim>\<open>False\<close>.\<close>

fun as_int :: "pyval \<Rightarrow> int option" where
  "as_int (PInt n) = Some n"
| "as_int (PBool b) = Some (if b then 1 else 0)"
| "as_int _ = None"

subsection \<open>Decimal text of an integer\<close>

function str_nat :: "nat \<Rightarrow> pystr" where
  "str_nat n = (if n < 10 then [48 + n] else str_nat (n div 10) @ [48 + n mod 10])"
  by pat_completeness auto
termination
  by (relation "measure id") auto

declare str_nat.simps [simp del]

definition str_int :: "int \<Rightarrow> pystr" where
  "str_int i = (if i < 0 then 45 # str_nat (nat (- i)) else str_nat (nat i))"

section \<open>The interpreter's side\<close>

text \<open>
  What the module uses of the interpreter and does not fix itself: the limit on the
  number of digits of an integer that is converted to or from text
  (\<^verbatim>\<open>sys.get_int_max_str_digits()\<close>: 4300 unless it is changed, and 0 for no
  limit), how many containers the JSON decoder may open inside one
  another before it raises \<^verbatim>\<open>RecursionError\<close>, the double that \<^verbatim>\<open>float\<close> makes of a
  number literal, the two Unicode tables that \<^verbatim>\<open>int\<close> consults for the code
  points of a \<^verbatim>\<open>str\<close> beyond ASCII, and the code points that the encoding of
  \<^verbatim>\<open>sys.stdout\<close> can write.  Integers themselves are unbounded.
\<close>

record interp =
  max_str_digits :: nat
  stdout_accepts :: "nat \<Rightarrow> bool"
  recursion_limit :: nat
  float_of_str :: "pystr \<Rightarrow> pyfloat"
  unicode_space :: "nat \<Rightarrow> bool"
  unicode_decimal :: "nat \<Rightarrow> nat option"

subsection \<open>The text of an integer, within the limit\<close>

text \<open>
  \<^verbatim>\<open>str(i)\<close>, \<^verbatim>\<open>repr(i)\<close>, \<^verbatim>\<open>print(i)\<close> and an f-string's \<^verbatim>\<open>{i}\<close> raise
  \<^verbatim>\<open>ValueError\<close> when \<open>i\<close> has more decimal digits than a limit that is not 0 (the sign
  is not counted); so does \<^verbatim>\<open>int\<close> on a text with more digits than that.  The
  interpreter accepts as limit only 0 and the numbers from 640, and it compares with
  the limit only beyond 640 digits, which for such a limit changes nothing.
\<close>

definition digit_count :: "int \<Rightarrow> nat" where
  "digit_count i = length (str_nat (nat \<bar>i\<bar>))"

definition over_limit :: "interp \<Rightarrow> nat \<Rightarrow> bool" where
  "over_limit ip n = (0 < max_str_digits ip \<and> max_str_digits ip < n)"

definition exceeds_limit :: "interp \<Rightarrow> int \<Rightarrow> bool" where
  "exceeds_limit ip i = over_limit ip (digit_count i)"

definition digit_limit_error :: "interp \<Rightarrow> exn" where
  "digit_limit_error ip =
     ValueError (ustr ''Exceeds the limit ('' @ str_nat (max_str_digits ip)
       @ ustr '' digits) for integer string conversion; use sys.set_int_max_str_digits() to increase the limit'')"

text \<open>The same failure of \<^verbatim>\<open>int\<close> on a text of \<open>n\<close> digits.\<close>

definition digit_limit_error_of_text :: "interp \<Rightarrow> nat \<Rightarrow> exn" where
  "digit_limit_error_of_text ip n =
     ValueError (ustr ''Exceeds the limit ('' @ str_nat (max_str_digits ip)
       @ ustr '' digits) for integer string conversion: value has '' @ str_nat n
       @ ustr '' digits; use sys.set_int_max_str_digits() to increase the limit'')"

definition int_str :: "interp \<Rightarrow> int \<Rightarrow> pystr result" where
  "int_str ip i = (if exceeds_limit ip i then Raise (digit_limit_error ip) else Return (str_int i))"

text \<open>What an f-string writes for a quantity that has passed \<^verbatim>\<open>isinstance(qty, int)\<close>:
  \<^verbatim>\<open>qty_text\<close> is the text, \<^verbatim>\<open>format_qty\<close> the conversion, which can fail on an
  \<^verbatim>\<open>int\<close>.  The last equation of each is never reached from the inventory's
  functions.\<close>

fun qty_text :: "pyval \<Rightarrow> pystr" where
  "qty_text (PInt n) = str_int n"
| "qty_text (PBool b) = (if b then ustr ''True'' else ustr ''False'')"
| "qty_text _ = []"

fun format_qty :: "interp \<Rightarrow> pyval \<Rightarrow> pystr result" where
  "format_qty ip (PInt n) = int_str ip n"
| "format_qty ip (PBool b) = Return (qty_text (PBool b))"
| "format_qty ip _ = Return []"

text \<open>A name between apostrophes, as the messages of \<^verbatim>\<open>remove_item\<close> show it.\<close>

definition quoted :: "pystr \<Rightarrow> pystr" where
  "quoted s = 39 # s @ [39]"

section \<open>The module's state\<close>

text \<open>
  \<^verbatim>\<open>stock_data\<close> is the module's global dictionary.  Every write to it stores a
  \<^verbatim>\<open>str\<close> key and an \<^verbatim>\<open>int\<close> value, so it is a list of such pairs in insertion
  order: \<^const>\<open>AList.update\<close> is \<^verbatim>\<open>d[k] = v\<close> (in place for a key already there, at
  the end for a new one), \<^const>\<open>AList.delete\<close> is \<^verbatim>\<open>del d[k]\<close> and \<^const>\<open>map_of\<close> is
  the lookup.  The state also holds what the module does to the outside: the records
  handed to \<^verbatim>\<open>logging\<close>, the text printed, and the files.
\<close>

datatype level = INFO | WARNING | ERROR

datatype logarg = ArgVal pyval | ArgExn exn

type_synonym log_record = "level \<times> pystr \<times> logarg list"

datatype file_state =
    Missing
  | Unreadable
  | Undecodable
  | Content pystr

record state =
  stock_data :: "(pystr \<times> int) list"
  log :: "log_record list"
  stdout :: pystr
  files :: "pystr \<Rightarrow> file_state"
  writable :: "pystr \<Rightarrow> bool"

definition logging :: "level \<Rightarrow> pystr \<Rightarrow> logarg list \<Rightarrow> state \<Rightarrow> state" where
  "logging lvl msg args s = s\<lparr>log := log s @ [(lvl, msg, args)]\<rparr>"

definition dict_get :: "(pystr \<times> int) list \<Rightarrow> pystr \<Rightarrow> int \<Rightarrow> int" where
  "dict_get d k dflt = (case map_of d k of None \<Rightarrow> dflt | Some v \<Rightarrow> v)"

section \<open>Inventory store\<close>

text \<open>
  Each function returns its outcome together with the state it leaves, so that the
  state at a \<^verbatim>\<open>raise\<close> is visible.  \<^verbatim>\<open>add_item\<close> appends to the caller's \<^verbatim>\<open>logs\<close>
  list; its normal outcome is that list after the call.  \<^verbatim>\<open>now\<close> is the text of
  \<^verbatim>\<open>datetime.now()\<close>.  \<^verbatim>\<open>add_item\<close> and \<^verbatim>\<open>remove_item\<close> build the text of their log
  line after they have written \<^verbatim>\<open>stock_data\<close>, so a quantity that does not convert
  makes them raise with the ledger already changed.
\<close>

definition add_item ::
  "interp \<Rightarrow> pyval \<Rightarrow> pyval \<Rightarrow> pystr list option \<Rightarrow> pystr \<Rightarrow> state
    \<Rightarrow> pystr list result \<times> state" where
  "add_item ip item qty logs now s =
     (let logs0 = (case logs of None \<Rightarrow> [] | Some l \<Rightarrow> l) in
      case item of
        PStr name \<Rightarrow>
          if name = [] then (Raise (TypeError (ustr ''item must be a non-empty string'')), s)
          else (case as_int qty of
            None \<Rightarrow> (Raise (TypeError (ustr ''qty must be an integer'')), s)
          | Some n \<Rightarrow>
              if n < 0 then (Raise (ValueError (ustr ''qty must be non-negative'')), s)
              else
                let prev = dict_get (stock_data s) name 0;
                    s1 = s\<lparr>stock_data := AList.update name (prev + n) (stock_data s)\<rparr>
                in (case format_qty ip qty of
                      Raise e \<Rightarrow> (Raise e, s1)
                    | Return text \<Rightarrow>
                        let entry = now @ ustr '': Added '' @ text @ ustr '' of '' @ name
                        in (Return (logs0 @ [entry]), logging INFO entry [] s1)))
      | _ \<Rightarrow> (Raise (TypeError (ustr ''item must be a non-empty string'')), s))"

definition remove_item ::
  "interp \<Rightarrow> pyval \<Rightarrow> pyval \<Rightarrow> pystr \<Rightarrow> state \<Rightarrow> unit result \<times> state" where
  "remove_item ip item qty now s =
     (case item of
        PStr name \<Rightarrow>
          if name = [] then (Raise (TypeError (ustr ''item must be a non-empty string'')), s)
          else (case as_int qty of
            None \<Rightarrow> (Raise (TypeError (ustr ''qty must be an integer'')), s)
          | Some n \<Rightarrow>
              if n \<le> 0 then (Raise (ValueError (ustr ''qty must be positive'')), s)
              else (case map_of (stock_data s) name of
                None \<Rightarrow>
                  (Raise (KeyError (ustr ''Item '' @ quoted name @ ustr '' not found in stock'')), s)
              | Some cur \<Rightarrow>
                  if cur < n then
                    (case format_qty ip qty of
                       Raise e \<Rightarrow> (Raise e, s)
                     | Return text \<Rightarrow>
                         (Raise (ValueError (ustr ''Not enough stock for '' @ quoted name
                             @ ustr '' to remove '' @ text)), s))
                  else
                    let s1 = s\<lparr>stock_data := AList.update name (cur - n) (stock_data s)\<rparr>;
                        s2 = (if cur - n = 0
                              then s1\<lparr>stock_data := AList.delete name (stock_data s1)\<rparr>
                              else s1)
                    in (case format_qty ip qty of
                          Raise e \<Rightarrow> (Raise e, s2)
                        | Return text \<Rightarrow>
                            (Return (),
                             logging INFO (now @ ustr '': Removed '' @ text
                               @ ustr '' of '' @ name) [] s2))))
      | _ \<Rightarrow> (Raise (TypeError (ustr ''item must be a non-empty string'')), s))"

definition get_qty :: "pyval \<Rightarrow> state \<Rightarrow> int result" where
  "get_qty item s =
     (case item of
        PStr name \<Rightarrow>
          if name = [] then Raise (TypeError (ustr ''item must be a non-empty string''))
          else Return (dict_get (stock_data s) name 0)
      | _ \<Rightarrow> Raise (TypeError (ustr ''item must be a non-empty string'')))"

text \<open>\<^verbatim>\<open>threshold\<close> is \<^verbatim>\<open>None\<close> here when the caller leaves it out; its default is 5.\<close>

definition check_low_items :: "pyval option \<Rightarrow> state \<Rightarrow> pystr list result" where
  "check_low_items threshold s =
     (case as_int (case threshold of None \<Rightarrow> PInt 5 | Some t \<Rightarrow> t) of
        None \<Rightarrow> Raise (ValueError (ustr ''threshold must be a non-negative integer''))
      | Some t \<Rightarrow>
          if t < 0 then Raise (ValueError (ustr ''threshold must be a non-negative integer''))
          else Return (map fst (filter (\<lambda>(name, qty). qty < t) (stock_data s))))"

text \<open>\<^verbatim>\<open>print(name, "->", qty)\<close> writes its arguments one after the other: a name
  that the stream cannot encode is not written, and the name and the arrow are written
  when the quantity fails to convert.  The stream is taken to be open.
  \<^verbatim>\<open>print_items\<close> is the loop; it returns the text printed so far.\<close>

fun print_items :: "interp \<Rightarrow> (pystr \<times> int) list \<Rightarrow> pystr \<Rightarrow> unit result \<times> pystr" where
  "print_items ip [] out = (Return (), out)"
| "print_items ip ((name, qty) # rest) out =
     (if \<not> list_all (stdout_accepts ip) name then (Raise UnicodeEncodeError, out)
      else
        (case int_str ip qty of
           Raise e \<Rightarrow> (Raise e, out @ name @ ustr '' -> '')
         | Return text \<Rightarrow> print_items ip rest (out @ name @ ustr '' -> '' @ text @ [10])))"

definition print_data :: "interp \<Rightarrow> state \<Rightarrow> unit result \<times> state" where
  "print_data ip s =
     (case print_items ip (stock_data s) (stdout s @ ustr ''Items Report'' @ [10]) of
        (r, out) \<Rightarrow> (r, s\<lparr>stdout := out\<rparr>))"

section \<open>The specification's error taxonomy\<close>

text \<open>
  The module has no exception classes of its own.  The specification's
  \<^verbatim>\<open>InvalidArgument\<close> is what the argument checks raise, \<^verbatim>\<open>NotFound\<close> is the
  \<^verbatim>\<open>KeyError\<close> of \<^verbatim>\<open>remove_item\<close>, and \<^verbatim>\<open>InsufficientStock\<close> the \<^verbatim>\<open>ValueError\<close>
  of its last check, whose message ends with the text of the quantity.
\<close>

definition invalid_argument :: "exn \<Rightarrow> bool" where
  "invalid_argument e =
     (e = TypeError (ustr ''item must be a non-empty string'')
      \<or> e = TypeError (ustr ''qty must be an integer'')
      \<or> e = ValueError (ustr ''qty must be non-negative'')
      \<or> e = ValueError (ustr ''qty must be positive'')
      \<or> e = ValueError (ustr ''threshold must be a non-negative integer''))"

definition not_found :: "pystr \<Rightarrow> exn \<Rightarrow> bool" where
  "not_found name e = (e = KeyError (ustr ''Item '' @ quoted name @ ustr '' not found in stock''))"

definition insufficient_stock :: "pystr \<Rightarrow> pyval \<Rightarrow> exn \<Rightarrow> bool" where
  "insufficient_stock name qty e =
     (e = ValueError (ustr ''Not enough stock for '' @ quoted name
            @ ustr '' to remove '' @ qty_text qty))"

section \<open>The module as imported\<close>

text \<open>\<^verbatim>\<open>stock_data\<close> starts empty.  Nothing has been logged or printed, no file exists
  yet and every path can be written.\<close>

definition module_start :: state where
  "module_start =
     \<lparr>stock_data = [], log = [], stdout = [], files = (\<lambda>_. Missing), writable = (\<lambda>_. True)\<rparr>"

section \<open>The ledger's invariants\<close>

text \<open>The data model asks that no quantity is negative, and that no entry holds 0.\<close>

definition nonneg_ledger :: "(pystr \<times> int) list \<Rightarrow> bool" where
  "nonneg_ledger d = list_all (\<lambda>(name, qty). 0 \<le> qty) d"


section \<open>The library\<close>

subsection \<open>\<^verbatim>\<open>int(v)\<close>\<close>

definition is_digit :: "nat \<Rightarrow> bool" where
  "is_digit c = (48 \<le> c \<and> c \<le> 57)"

text \<open>The C locale's white space: space, and tab to carriage return.\<close>

definition py_isspace :: "nat \<Rightarrow> bool" where
  "py_isspace c = (c = 32 \<or> (9 \<le> c \<and> c \<le> 13))"

text \<open>Digits, with single underscores between them only.\<close>

fun grouped :: "pystr \<Rightarrow> bool" where
  "grouped [] = False"
| "grouped [c] = is_digit c"
| "grouped (c # d # cs) = (is_digit c \<and> (if d = 95 then grouped cs else grouped (d # cs)))"

definition digits_value :: "pystr \<Rightarrow> nat" where
  "digits_value s = foldl (\<lambda>acc c. if c = 95 then acc else 10 * acc + (c - 48)) 0 s"

text \<open>The messages of the interpreter's own exceptions are abridged, the one of the
  limit on the digits apart.\<close>

definition invalid_literal :: exn where
  "invalid_literal = ValueError (ustr ''invalid literal for int() with base 10'')"

text \<open>The text of an integer in base 10: white space, a sign, the digits, white space.
  The digits are counted (not the underscores) and tested against the limit once
  their grouping is seen to be right, and before what follows them is looked at.\<close>

definition long_from_string :: "interp \<Rightarrow> pystr \<Rightarrow> int result" where
  "long_from_string ip s =
     (let s1 = dropWhile py_isspace s;
          negative = (take 1 s1 = [45]);
          s2 = (if take 1 s1 = [43] \<or> take 1 s1 = [45] then drop 1 s1 else s1);
          body = takeWhile (\<lambda>c. is_digit c \<or> c = 95) s2;
          rest = dropWhile (\<lambda>c. is_digit c \<or> c = 95) s2;
          digits = length (filter is_digit body)
      in if \<not> grouped body then Raise invalid_literal
         else if over_limit ip digits then Raise (digit_limit_error_of_text ip digits)
         else if dropWhile py_isspace rest \<noteq> [] then Raise invalid_literal
         else Return (if negative then - int (digits_value body) else int (digits_value body)))"

text \<open>A \<^verbatim>\<open>str\<close> with a code point beyond ASCII is first rewritten: Unicode spaces to a
  space, Unicode decimal digits to ASCII digits; any other such code point makes the
  text no literal.\<close>

definition to_ascii :: "interp \<Rightarrow> pystr \<Rightarrow> pystr option" where
  "to_ascii ip s =
     (if list_all (\<lambda>c. c < 128) s then Some s
      else those (map (\<lambda>c.
             if c < 127 then Some c
             else if unicode_space ip c then Some 32
             else (case unicode_decimal ip c of
                     None \<Rightarrow> None
                   | Some d \<Rightarrow> if d < 10 then Some (48 + d) else None)) s))"

definition trunc :: "rat \<Rightarrow> int" where
  "trunc q = (if 0 \<le> q then \<lfloor>q\<rfloor> else \<lceil>q\<rceil>)"

fun py_int :: "interp \<Rightarrow> pyval \<Rightarrow> int result" where
  "py_int ip (PInt n) = Return n"
| "py_int ip (PBool b) = Return (if b then 1 else 0)"
| "py_int ip (PFloat (Finite q)) = Return (trunc q)"
| "py_int ip (PFloat NaN) = Raise (ValueError (ustr ''cannot convert float NaN to integer''))"
| "py_int ip (PFloat _) = Raise (OverflowError (ustr ''cannot convert float infinity to integer''))"
| "py_int ip (PStr t) =
     (case to_ascii ip t of
        None \<Rightarrow> Raise invalid_literal
      | Some a \<Rightarrow> long_from_string ip a)"
| "py_int ip _ =
     Raise (TypeError (ustr ''int() argument must be a string, a bytes-like object or a real number''))"

subsection \<open>The JSON decoder\<close>

text \<open>
  \<^verbatim>\<open>json.load\<close> with its defaults, on the text of the file.  The decoder works on the
  text that is left: each function returns what it read and the rest.  The message and
  the position of a \<^verbatim>\<open>JSONDecodeError\<close> are left out.
\<close>

definition ws :: "nat \<Rightarrow> bool" where
  "ws c = (c = 32 \<or> c = 9 \<or> c = 10 \<or> c = 13)"

definition skip_ws :: "pystr \<Rightarrow> pystr" where
  "skip_ws s = dropWhile ws s"

definition hex_value :: "nat \<Rightarrow> nat option" where
  "hex_value c =
     (if 48 \<le> c \<and> c \<le> 57 then Some (c - 48)
      else if 97 \<le> c \<and> c \<le> 102 then Some (c - 87)
      else if 65 \<le> c \<and> c \<le> 70 then Some (c - 55)
      else None)"

definition decode_uXXXX :: "pystr \<Rightarrow> nat option" where
  "decode_uXXXX s =
     (case s of
        a # b # c # d # _ \<Rightarrow>
          (case (hex_value a, hex_value b, hex_value c, hex_value d) of
             (Some h3, Some h2, Some h1, Some h0) \<Rightarrow> Some (((h3 * 16 + h2) * 16 + h1) * 16 + h0)
           | _ \<Rightarrow> None)
      | _ \<Rightarrow> None)"

definition backslash :: "nat \<Rightarrow> nat option" where
  "backslash esc =
     (if esc = 34 \<or> esc = 92 \<or> esc = 47 then Some esc
      else if esc = 98 then Some 8
      else if esc = 102 then Some 12
      else if esc = 110 then Some 10
      else if esc = 114 then Some 13
      else if esc = 116 then Some 9
      else None)"

definition prepend :: "nat \<Rightarrow> (pystr \<times> pystr) result \<Rightarrow> (pystr \<times> pystr) result" where
  "prepend c r = (case r of Return (t, rest) \<Rightarrow> Return (c # t, rest) | Raise e \<Rightarrow> Raise e)"

text \<open>The text after an opening quotation mark, up to the closing one.  Two
  \<^verbatim>\<open>\u\<close> escapes that form a surrogate pair are one code point.\<close>

fun scanstring :: "pystr \<Rightarrow> (pystr \<times> pystr) result" where
  "scanstring [] = Raise JSONDecodeError"
| "scanstring (c # cs) =
     (if c = 34 then Return ([], cs)
      else if c = 92 then
        (case cs of
           [] \<Rightarrow> Raise JSONDecodeError
         | esc # cs1 \<Rightarrow>
             if esc \<noteq> 117 then
               (case backslash esc of
                  None \<Rightarrow> Raise JSONDecodeError
                | Some ch \<Rightarrow> prepend ch (scanstring cs1))
             else
               (case decode_uXXXX cs1 of
                  None \<Rightarrow> Raise JSONDecodeError
                | Some uni \<Rightarrow>
                    if 0xD800 \<le> uni \<and> uni \<le> 0xDBFF \<and> take 2 (drop 4 cs1) = [92, 117] then
                      (case decode_uXXXX (drop 6 cs1) of
                         None \<Rightarrow> Raise JSONDecodeError
                       | Some uni2 \<Rightarrow>
                           if 0xDC00 \<le> uni2 \<and> uni2 \<le> 0xDFFF then
                             prepend (0x10000 + ((uni - 0xD800) * 1024 + (uni2 - 0xDC00)))
                               (scanstring (drop 10 cs1))
                           else prepend uni (scanstring (drop 4 cs1)))
                    else prepend uni (scanstring (drop 4 cs1))))
      else if c < 32 then Raise JSONDecodeError
      else prepend c (scanstring cs))"

text \<open>The number pattern: an integer part, then a fraction and an exponent if they are
  complete.  The result is the three parts and the rest.\<close>

definition match_frac :: "pystr \<Rightarrow> pystr \<times> pystr" where
  "match_frac s =
     (case s of
        p # d # r \<Rightarrow>
          if p = 46 \<and> is_digit d then (p # d # takeWhile is_digit r, dropWhile is_digit r)
          else ([], s)
      | _ \<Rightarrow> ([], s))"

definition match_exp :: "pystr \<Rightarrow> pystr \<times> pystr" where
  "match_exp s =
     (case s of
        e # r \<Rightarrow>
          if e = 101 \<or> e = 69 then
            (let sg = (if take 1 r = [43] \<or> take 1 r = [45] then take 1 r else []);
                 r1 = drop (length sg) r
             in if r1 \<noteq> [] \<and> is_digit (hd r1)
                then (e # sg @ takeWhile is_digit r1, dropWhile is_digit r1)
                else ([], s))
          else ([], s)
      | _ \<Rightarrow> ([], s))"

definition match_number :: "pystr \<Rightarrow> (pystr \<times> pystr \<times> pystr \<times> pystr) option" where
  "match_number s =
     (let sg = (if take 1 s = [45] then [45] else []);
          s1 = drop (length sg) s
      in case s1 of
           [] \<Rightarrow> None
         | c # r \<Rightarrow>
             if c = 48 then
               (let (fpart, r1) = match_frac r; (epart, r2) = match_exp r1
                in Some (sg @ [c], fpart, epart, r2))
             else if 49 \<le> c \<and> c \<le> 57 then
               (let (fpart, r1) = match_frac (dropWhile is_digit r); (epart, r2) = match_exp r1
                in Some (sg @ c # takeWhile is_digit r, fpart, epart, r2))
             else None)"

text \<open>\<^verbatim>\<open>dict(pairs)\<close>: a later pair with a key already there replaces its value.\<close>

definition dict_of :: "(pyval \<times> pyval) list \<Rightarrow> (pyval \<times> pyval) list" where
  "dict_of pairs = foldl (\<lambda>d (k, v). AList.update k v d) [] pairs"

text \<open>
  \<^verbatim>\<open>scan_once\<close> reads one value at the start of the text.  \<open>d\<close> is the number of
  containers that may still be opened.  An integer literal is converted by \<^verbatim>\<open>int\<close>,
  whose \<^verbatim>\<open>ValueError\<close> on too many digits is no \<^verbatim>\<open>JSONDecodeError\<close>.  \<^verbatim>\<open>parse_members\<close> is the loop of the object
  decoder, entered after the quotation mark that opens a key; \<^verbatim>\<open>parse_elements\<close> is
  the loop of the array decoder, entered at an element.  Each turn of a loop shortens
  the text; the loops test it so that the recursion is seen to end, and their last
  branch is never taken (lemmas \<open>parse_members_unguarded\<close> and
  \<open>parse_elements_unguarded\<close> below).
\<close>

fun scan_once :: "interp \<Rightarrow> nat \<Rightarrow> pystr \<Rightarrow> (pyval \<times> pystr) result"
  and parse_members :: "interp \<Rightarrow> nat \<Rightarrow> pystr \<Rightarrow> ((pyval \<times> pyval) list \<times> pystr) result"
  and parse_elements :: "interp \<Rightarrow> nat \<Rightarrow> pystr \<Rightarrow> (pyval list \<times> pystr) result"
where
  "scan_once ip d s =
     (case s of
        [] \<Rightarrow> Raise JSONDecodeError
      | c # cs \<Rightarrow>
          if c = 34 then
            (case scanstring cs of
               Raise e \<Rightarrow> Raise e
             | Return (t, r) \<Rightarrow> Return (PStr t, r))
          else if c = 123 then
            (case d of
               0 \<Rightarrow> Raise RecursionError
             | Suc d' \<Rightarrow>
                 (case skip_ws cs of
                    [] \<Rightarrow> Raise JSONDecodeError
                  | n # r \<Rightarrow>
                      if n = 125 then Return (PDict [], r)
                      else if n = 34 then
                        (case parse_members ip d' r of
                           Raise e \<Rightarrow> Raise e
                         | Return (pairs, r') \<Rightarrow> Return (PDict (dict_of pairs), r'))
                      else Raise JSONDecodeError))
          else if c = 91 then
            (case d of
               0 \<Rightarrow> Raise RecursionError
             | Suc d' \<Rightarrow>
                 (case skip_ws cs of
                    [] \<Rightarrow> Raise JSONDecodeError
                  | n # r \<Rightarrow>
                      if n = 93 then Return (PList [], r)
                      else
                        (case parse_elements ip d' (n # r) of
                           Raise e \<Rightarrow> Raise e
                         | Return (vs, r') \<Rightarrow> Return (PList vs, r'))))
          else if take 4 s = ustr ''null'' then Return (PNone, drop 4 s)
          else if take 4 s = ustr ''true'' then Return (PBool True, drop 4 s)
          else if take 5 s = ustr ''false'' then Return (PBool False, drop 5 s)
          else
            (case match_number s of
               Some (integer, fpart, epart, r) \<Rightarrow>
                 if fpart \<noteq> [] \<or> epart \<noteq> [] then
                   Return (PFloat (float_of_str ip (integer @ fpart @ epart)), r)
                 else
                   (case long_from_string ip integer of
                      Raise e \<Rightarrow> Raise e
                    | Return i \<Rightarrow> Return (PInt i, r))
             | None \<Rightarrow>
                 if take 3 s = ustr ''NaN'' then Return (PFloat NaN, drop 3 s)
                 else if take 8 s = ustr ''Infinity'' then Return (PFloat PosInf, drop 8 s)
                 else if take 9 s = ustr ''-Infinity'' then Return (PFloat NegInf, drop 9 s)
                 else Raise JSONDecodeError))"
| "parse_members ip d s =
     (case scanstring s of
        Raise e \<Rightarrow> Raise e
      | Return (key, s1) \<Rightarrow>
          (case skip_ws s1 of
             [] \<Rightarrow> Raise JSONDecodeError
           | colon # s2 \<Rightarrow>
               if colon \<noteq> 58 then Raise JSONDecodeError
               else
                 (case scan_once ip d (skip_ws s2) of
                    Raise e \<Rightarrow> Raise e
                  | Return (v, s3) \<Rightarrow>
                      (case skip_ws s3 of
                         [] \<Rightarrow> Raise JSONDecodeError
                       | n # s4 \<Rightarrow>
                           if n = 125 then Return ([(PStr key, v)], s4)
                           else if n \<noteq> 44 then Raise JSONDecodeError
                           else
                             (case skip_ws s4 of
                                [] \<Rightarrow> Raise JSONDecodeError
                              | q # s5 \<Rightarrow>
                                  if q \<noteq> 34 then Raise JSONDecodeError
                                  else if length s5 < length s then
                                    (case parse_members ip d s5 of
                                       Raise e \<Rightarrow> Raise e
                                     | Return (pairs, r) \<Rightarrow> Return ((PStr key, v) # pairs, r))
                                  else Raise JSONDecodeError)))))"
| "parse_elements ip d s =
     (case scan_once ip d s of
        Raise e \<Rightarrow> Raise e
      | Return (v, s1) \<Rightarrow>
          (case skip_ws s1 of
             [] \<Rightarrow> Raise JSONDecodeError
           | n # s2 \<Rightarrow>
               if n = 93 then Return ([v], s2)
               else if n \<noteq> 44 then Raise JSONDecodeError
               else if length (skip_ws s2) < length s then
                 (case parse_elements ip d (skip_ws s2) of
                    Raise e \<Rightarrow> Raise e
                  | Return (vs, r) \<Rightarrow> Return (v # vs, r))
               else Raise JSONDecodeError))"

definition json_loads :: "interp \<Rightarrow> pystr \<Rightarrow> pyval result" where
  "json_loads ip s =
     (if take 1 s = [0xFEFF] then Raise JSONDecodeError
      else
        (case scan_once ip (recursion_limit ip) (skip_ws s) of
           Raise e \<Rightarrow> Raise e
         | Return (obj, r) \<Rightarrow> if skip_ws r = [] then Return obj else Raise JSONDecodeError))"

subsection \<open>The JSON encoder\<close>

text \<open>
  \<^verbatim>\<open>json.dump(stock_data, f, indent=2)\<close>: the keys are \<^verbatim>\<open>str\<close>, the values \<^verbatim>\<open>int\<close>.  A
  key is written between quotation marks, with everything but the printable ASCII
  characters escaped, a code point beyond \<^verbatim>\<open>0xFFFF\<close> as a surrogate pair.  The
  encoder hands the text to the file piece by piece, and the text of a quantity is
  made when its turn comes: if that fails, the file holds what was written before.
\<close>

definition hex_digit :: "nat \<Rightarrow> nat" where
  "hex_digit n = (if n < 10 then 48 + n else 87 + n)"

definition u_escape :: "nat \<Rightarrow> pystr" where
  "u_escape n =
     [92, 117, hex_digit (n div 4096 mod 16), hex_digit (n div 256 mod 16),
      hex_digit (n div 16 mod 16), hex_digit (n mod 16)]"

definition escape_char :: "nat \<Rightarrow> pystr" where
  "escape_char c =
     (if c = 34 then [92, 34]
      else if c = 92 then [92, 92]
      else if c = 10 then [92, 110]
      else if c = 13 then [92, 114]
      else if c = 9 then [92, 116]
      else if c = 8 then [92, 98]
      else if c = 12 then [92, 102]
      else if 32 \<le> c \<and> c \<le> 126 then [c]
      else if c < 0x10000 then u_escape c
      else u_escape (0xD800 + (c - 0x10000) div 1024 mod 1024)
         @ u_escape (0xDC00 + (c - 0x10000) mod 1024))"

definition encode_basestring_ascii :: "pystr \<Rightarrow> pystr" where
  "encode_basestring_ascii s = 34 # concat (map escape_char s) @ [34]"

text \<open>The loop over \<^verbatim>\<open>stock_data.items()\<close>: \<open>first\<close> tells the first turn, which
  writes no separator; \<open>out\<close> is the text written so far.\<close>

fun iterencode_dict ::
  "interp \<Rightarrow> bool \<Rightarrow> (pystr \<times> int) list \<Rightarrow> pystr \<Rightarrow> unit result \<times> pystr" where
  "iterencode_dict ip first [] out = (Return (), out)"
| "iterencode_dict ip first ((k, v) # rest) out =
     (let out1 = (if first then out else out @ [44, 10, 32, 32])
                   @ encode_basestring_ascii k @ ustr '': ''
      in case int_str ip v of
           Raise e \<Rightarrow> (Raise e, out1)
         | Return text \<Rightarrow> iterencode_dict ip False rest (out1 @ text))"

definition json_dump :: "interp \<Rightarrow> (pystr \<times> int) list \<Rightarrow> unit result \<times> pystr" where
  "json_dump ip d =
     (if d = [] then (Return (), ustr ''{}'')
      else
        (case iterencode_dict ip True d [123, 10, 32, 32] of
           (Raise e, out) \<Rightarrow> (Raise e, out)
         | (Return u, out) \<Rightarrow> (Return (), out @ [10, 125])))"

text \<open>The whole text, as it is written when every quantity converts.\<close>

fun dump_items :: "(pystr \<times> int) list \<Rightarrow> pystr" where
  "dump_items [] = []"
| "dump_items [(k, v)] = encode_basestring_ascii k @ ustr '': '' @ str_int v"
| "dump_items ((k, v) # rest) =
     encode_basestring_ascii k @ ustr '': '' @ str_int v @ [44, 10, 32, 32] @ dump_items rest"

definition json_dumps :: "(pystr \<times> int) list \<Rightarrow> pystr" where
  "json_dumps d = (if d = [] then ustr ''{}'' else [123, 10, 32, 32] @ dump_items d @ [10, 125])"

section \<open>Persistence\<close>

text \<open>The classes that \<^verbatim>\<open>except (TypeError, ValueError)\<close> catches:
  \<^verbatim>\<open>UnicodeDecodeError\<close>, \<^verbatim>\<open>UnicodeEncodeError\<close> and \<^verbatim>\<open>JSONDecodeError\<close> are
  subclasses of \<^verbatim>\<open>ValueError\<close>.\<close>

fun type_or_value_error :: "exn \<Rightarrow> bool" where
  "type_or_value_error (TypeError _) = True"
| "type_or_value_error (ValueError _) = True"
| "type_or_value_error UnicodeDecodeError = True"
| "type_or_value_error UnicodeEncodeError = True"
| "type_or_value_error JSONDecodeError = True"
| "type_or_value_error _ = False"

text \<open>The loop of \<^verbatim>\<open>load_data\<close> over \<^verbatim>\<open>data.items()\<close>.  An exception of \<^verbatim>\<open>int(v)\<close> that
  the inner handler does not catch ends the loop, with the warnings logged so far.\<close>

fun clean_items ::
  "interp \<Rightarrow> (pyval \<times> pyval) list \<Rightarrow> (pystr \<times> int) list \<Rightarrow> state
    \<Rightarrow> (pystr \<times> int) list result \<times> state" where
  "clean_items ip [] cleaned s = (Return cleaned, s)"
| "clean_items ip ((k, v) # rest) cleaned s =
     (case k of
        PStr name \<Rightarrow>
          (case py_int ip v of
             Return n \<Rightarrow> clean_items ip rest (AList.update name n cleaned) s
           | Raise e \<Rightarrow>
               if type_or_value_error e then
                 clean_items ip rest cleaned
                   (logging WARNING (ustr ''Skipping key with non-integer value: %s=%r'')
                      [ArgVal k, ArgVal v] s)
               else (Raise e, s))
      | _ \<Rightarrow>
          clean_items ip rest cleaned
            (logging WARNING (ustr ''Skipping non-string key in inventory file: %r'')
               [ArgVal k] s))"

text \<open>\<^verbatim>\<open>open(file, "r", encoding="utf-8")\<close> and the reading of the whole text.\<close>

definition read_text :: "pystr \<Rightarrow> state \<Rightarrow> pystr result" where
  "read_text path s =
     (case files s path of
        Missing \<Rightarrow> Raise FileNotFoundError
      | Unreadable \<Rightarrow> Raise OSError
      | Undecodable \<Rightarrow> Raise UnicodeDecodeError
      | Content text \<Rightarrow> Return text)"

text \<open>The body of the \<^verbatim>\<open>try\<close> statement of \<^verbatim>\<open>load_data\<close>.\<close>

definition load_body :: "interp \<Rightarrow> pystr \<Rightarrow> state \<Rightarrow> unit result \<times> state" where
  "load_body ip path s =
     (case read_text path s of
        Raise e \<Rightarrow> (Raise e, s)
      | Return text \<Rightarrow>
          (case json_loads ip text of
             Raise e \<Rightarrow> (Raise e, s)
           | Return data \<Rightarrow>
               (case data of
                  PDict items \<Rightarrow>
                    (case clean_items ip items [] s of
                       (Raise e, s1) \<Rightarrow> (Raise e, s1)
                     | (Return cleaned, s1) \<Rightarrow>
                         (Return (),
                          logging INFO (ustr ''Loaded inventory from %s'') [ArgVal (PStr path)]
                            (s1\<lparr>stock_data := cleaned\<rparr>)))
                | _ \<Rightarrow>
                    (Raise (ValueError (ustr ''inventory file must contain a JSON object'')), s))))"

text \<open>\<^verbatim>\<open>file\<close> is \<^verbatim>\<open>None\<close> here when the caller leaves it out.  The three handlers are
  tried in the order of the source; the last catches every \<^verbatim>\<open>Exception\<close>.\<close>

definition load_data :: "interp \<Rightarrow> pystr option \<Rightarrow> state \<Rightarrow> unit result \<times> state" where
  "load_data ip file s =
     (let path = (case file of None \<Rightarrow> ustr ''inventory.json'' | Some f \<Rightarrow> f) in
      case load_body ip path s of
        (Return u, s1) \<Rightarrow> (Return u, s1)
      | (Raise e, s1) \<Rightarrow>
          if e = FileNotFoundError then
            (Return (),
             (logging WARNING
                (ustr ''Inventory file %s not found '' @ [8212]
                   @ ustr '' starting with empty inventory'')
                [ArgVal (PStr path)] s1)\<lparr>stock_data := []\<rparr>)
          else if e = JSONDecodeError then
            (Return (),
             (logging ERROR (ustr ''Invalid JSON in %s: %s'')
                [ArgVal (PStr path), ArgExn e] s1)\<lparr>stock_data := []\<rparr>)
          else
            (Return (),
             (logging ERROR (ustr ''Unexpected error while loading data: %s'')
                [ArgExn e] s1)\<lparr>stock_data := []\<rparr>))"

text \<open>The body of the \<^verbatim>\<open>try\<close> statement of \<^verbatim>\<open>save_data\<close>: a path that cannot be
  opened for writing makes \<^verbatim>\<open>open\<close> raise \<^verbatim>\<open>OSError\<close>; otherwise the file is emptied
  and holds what the encoder has written when it returns or raises.\<close>

definition save_body :: "interp \<Rightarrow> pystr \<Rightarrow> state \<Rightarrow> unit result \<times> state" where
  "save_body ip path s =
     (if \<not> writable s path then (Raise OSError, s)
      else
        (case json_dump ip (stock_data s) of
           (Raise e, text) \<Rightarrow> (Raise e, s\<lparr>files := (files s)(path := Content text)\<rparr>)
         | (Return u, text) \<Rightarrow>
             (Return (),
              logging INFO (ustr ''Saved inventory to %s'') [ArgVal (PStr path)]
                (s\<lparr>files := (files s)(path := Content text)\<rparr>))))"

text \<open>The classes that \<^verbatim>\<open>except OSError\<close> catches.\<close>

fun os_error :: "exn \<Rightarrow> bool" where
  "os_error OSError = True"
| "os_error FileNotFoundError = True"
| "os_error _ = False"

text \<open>The handler of \<^verbatim>\<open>save_data\<close> catches \<^verbatim>\<open>OSError\<close>, logs it and raises it again;
  any other exception passes through it, unlogged.\<close>

definition save_data :: "interp \<Rightarrow> pystr option \<Rightarrow> state \<Rightarrow> unit result \<times> state" where
  "save_data ip file s =
     (let path = (case file of None \<Rightarrow> ustr ''inventory.json'' | Some f \<Rightarrow> f) in
      case save_body ip path s of
        (Return u, s1) \<Rightarrow> (Return u, s1)
      | (Raise e, s1) \<Rightarrow>
          if os_error e then
            (Raise e,
             logging ERROR (ustr ''Failed to write inventory to %s: %s'')
               [ArgVal (PStr path), ArgExn e] s1)
          else (Raise e, s1))"

text \<open>An interpreter to run the functions on examples: its limit on the digits is the
  default one, 4300, its \<^verbatim>\<open>sys.stdout\<close> writes UTF-8, which has every code point but
  the surrogates, it opens up to 1000 containers, and its three tables are not
  consulted by a text without fractions, exponents and code points beyond ASCII.\<close>

definition sample_interp :: interp where
  "sample_interp =
     \<lparr>max_str_digits = 4300, stdout_accepts = (\<lambda>c. \<not> (0xD800 \<le> c \<and> c \<le> 0xDFFF)),
      recursion_limit = 1000, float_of_str = (\<lambda>_. Finite 0),
      unicode_space = (\<lambda>_. False), unicode_decimal = (\<lambda>_. None)\<rparr>"

subsection \<open>Keys that the encoder and the decoder agree on\<close>

text \<open>
  A \<^verbatim>\<open>str\<close> holds code points below \<^verbatim>\<open>0x110000\<close>, lone surrogates included.  The
  decoder joins the escapes of a high and a low surrogate into one code point, so it
  gives back the key that was written only if the key has no such pair of code points.
\<close>

definition high_surrogate :: "nat \<Rightarrow> bool" where
  "high_surrogate c = (0xD800 \<le> c \<and> c \<le> 0xDBFF)"

definition low_surrogate :: "nat \<Rightarrow> bool" where
  "low_surrogate c = (0xDC00 \<le> c \<and> c \<le> 0xDFFF)"

fun no_surrogate_pair :: "pystr \<Rightarrow> bool" where
  "no_surrogate_pair (c # d # cs) =
     (\<not> (high_surrogate c \<and> low_surrogate d) \<and> no_surrogate_pair (d # cs))"
| "no_surrogate_pair _ = True"

definition code_points :: "pystr \<Rightarrow> bool" where
  "code_points s = list_all (\<lambda>c. c < 0x110000) s"

definition key_ok :: "pystr \<Rightarrow> bool" where
  "key_ok k = (code_points k \<and> no_surrogate_pair k)"

section \<open>Basic facts\<close>

lemma stock_data_logging: "stock_data (logging lvl msg args s) = stock_data s"
  by (simp add: logging_def)

lemma delete_update_same: "AList.delete k (AList.update k v al) = AList.delete k al"
  by (induction al) (auto simp: AList.delete_eq)




text \<open>\<^verbatim>\<open>stock_data\<close> is a dictionary: its keys stay distinct.  (\<^verbatim>\<open>load_data\<close> builds
  a dictionary of its own, see below.)\<close>

lemma distinct_keys_preserved:
  assumes "distinct (map fst (stock_data s))"
  shows "distinct (map fst (stock_data (snd (add_item ip item qty logs now s))))"
    and "distinct (map fst (stock_data (snd (remove_item ip item qty now s))))"
    and "distinct (map fst (stock_data (snd (print_data ip s))))"
    and "distinct (map fst (stock_data (snd (save_data ip file s))))"
  using assms
  by (auto simp: add_item_def remove_item_def print_data_def save_data_def save_body_def Let_def
      stock_data_logging distinct_update distinct_delete
      split: pyval.splits option.splits result.splits prod.splits)

text \<open>No limit on the digits is below 1.\<close>

lemma over_limit_small: "over_limit ip 0 = False" "over_limit ip (Suc 0) = False"
  by (auto simp: over_limit_def)

text \<open>The definitions that run the decoder on a text given in full.\<close>

lemmas json_eval = json_loads_def ustr_def skip_ws_def ws_def prepend_def match_number_def
  match_frac_def match_exp_def long_from_string_def over_limit_small py_isspace_def is_digit_def
  digits_value_def dict_of_def decode_uXXXX_def hex_value_def backslash_def to_ascii_def

section \<open>The limit on the digits\<close>

text \<open>
  \<open>10 ^ k\<close> is written with \<open>k + 1\<close> digits, so \<open>10 ^ 4300\<close>, with its 4301 digits, is
  beyond the default limit of 4300 digits.
\<close>

lemma str_nat_power10: "str_nat (10 ^ Suc k) = str_nat (10 ^ k) @ [48]"
proof -
  have "\<not> (10::nat) ^ Suc k < 10" by simp
  then show ?thesis
    by (subst str_nat.simps) (simp del: power_Suc add: power_Suc [of 10 k])
qed

lemma digit_count_power10: "digit_count (10 ^ k) = Suc k"
proof -
  have "length (str_nat (10 ^ k)) = Suc k"
  proof (induction k)
    case 0
    show ?case by (simp add: str_nat.simps)
  next
    case (Suc k)
    then show ?case by (simp only: str_nat_power10 length_append) simp
  qed
  moreover have "nat \<bar>(10::int) ^ k\<bar> = 10 ^ k"
    by (simp add: nat_power_eq)
  ultimately show ?thesis
    by (simp only: digit_count_def)
qed

lemma exceeds_default_limit: "exceeds_limit sample_interp (10 ^ 4300)"
  unfolding exceeds_limit_def over_limit_def digit_count_power10
  by (simp add: sample_interp_def)

text \<open>The message of the conversion error is none of the messages of the module.\<close>

lemma digit_limit_error_shape: "\<exists>t. digit_limit_error ip = ValueError (69 # t)"
  by (simp add: digit_limit_error_def ustr_def)

lemma invalid_argument_not_limit: "invalid_argument e \<Longrightarrow> e \<noteq> digit_limit_error ip"
  using digit_limit_error_shape [of ip]
  by (auto simp: invalid_argument_def ustr_def)

lemma not_found_not_limit: "not_found name e \<Longrightarrow> e \<noteq> digit_limit_error ip"
  using digit_limit_error_shape [of ip]
  by (auto simp: not_found_def)

lemma insufficient_stock_not_limit: "insufficient_stock name qty e \<Longrightarrow> e \<noteq> digit_limit_error ip"
  using digit_limit_error_shape [of ip]
  by (auto simp: insufficient_stock_def ustr_def)

text \<open>What the two mutations do with a quantity that passes their checks: the ledger
  is written whether or not the quantity converts to text.\<close>

lemma add_item_checked:
  assumes "name \<noteq> []" and "0 \<le> qty"
  shows "stock_data (snd (add_item ip (PStr name) (PInt qty) logs now s))
           = AList.update name (dict_get (stock_data s) name 0 + qty) (stock_data s)"
    and "exceeds_limit ip qty \<Longrightarrow>
           fst (add_item ip (PStr name) (PInt qty) logs now s) = Raise (digit_limit_error ip)"
    and "\<not> exceeds_limit ip qty \<Longrightarrow>
           \<exists>out. fst (add_item ip (PStr name) (PInt qty) logs now s) = Return out"
  using assms
  by (simp_all add: add_item_def Let_def int_str_def stock_data_logging)

lemma remove_item_checked:
  assumes "name \<noteq> []" and "0 < qty" and "map_of (stock_data s) name = Some cur" and "qty \<le> cur"
  shows "stock_data (snd (remove_item ip (PStr name) (PInt qty) now s))
           = (if cur - qty = 0 then AList.delete name (stock_data s)
              else AList.update name (cur - qty) (stock_data s))"
    and "exceeds_limit ip qty \<Longrightarrow>
           fst (remove_item ip (PStr name) (PInt qty) now s) = Raise (digit_limit_error ip)"
    and "\<not> exceeds_limit ip qty \<Longrightarrow>
           fst (remove_item ip (PStr name) (PInt qty) now s) = Return ()"
  using assms
  by (simp_all add: remove_item_def Let_def int_str_def stock_data_logging delete_update_same)

lemma remove_item_short:
  assumes "name \<noteq> []" and "0 < qty" and "map_of (stock_data s) name = Some cur" and "cur < qty"
  shows "snd (remove_item ip (PStr name) (PInt qty) now s) = s"
    and "exceeds_limit ip qty \<Longrightarrow>
           fst (remove_item ip (PStr name) (PInt qty) now s) = Raise (digit_limit_error ip)"
    and "\<not> exceeds_limit ip qty \<Longrightarrow>
           fst (remove_item ip (PStr name) (PInt qty) now s)
             = Raise (ValueError (ustr ''Not enough stock for '' @ quoted name
                 @ ustr '' to remove '' @ qty_text (PInt qty)))"
  using assms
  by (simp_all add: remove_item_def Let_def int_str_def)

lemma print_data_ledger:
  "stock_data s = d \<Longrightarrow>
   print_data ip s = (case print_items ip d (stdout s @ ustr ''Items Report'' @ [10]) of
                        (r, out) \<Rightarrow> (r, s\<lparr>stdout := out\<rparr>))"
  by (simp add: print_data_def)

section \<open>Adding stock\<close>

text \<open>
  Claim C1, as the code has it.  \<^verbatim>\<open>add_item("a", 10 ** 4300)\<close> on the module as imported,
  with the default limit of 4300 digits: the name is not empty and the quantity is an
  integer \<open>\<ge> 0\<close>, yet the call raises the \<^verbatim>\<open>ValueError\<close> of the conversion, from the
  f-string of its log line.  So \<^verbatim>\<open>add_item\<close> does not succeed on every such input.
\<close>

theorem add_item_digit_limit_counterexample:
  "fst (add_item sample_interp (PStr (ustr ''a'')) (PInt (10 ^ 4300)) None (ustr ''now'')
      module_start) = Raise (digit_limit_error sample_interp)
   \<and> get_qty (PStr (ustr ''a'')) module_start = Return 0"
proof -
  have "ustr ''a'' \<noteq> []" by (simp add: ustr_def)
  moreover have "(0::int) \<le> 10 ^ 4300" by (rule zero_le_power) simp
  ultimately have "fst (add_item sample_interp (PStr (ustr ''a'')) (PInt (10 ^ 4300)) None
      (ustr ''now'') module_start) = Raise (digit_limit_error sample_interp)"
    using exceeds_default_limit by (rule add_item_checked(2))
  moreover have "get_qty (PStr (ustr ''a'')) module_start = Return 0"
    by (simp add: get_qty_def ustr_def dict_get_def module_start_def)
  ultimately show ?thesis ..
qed

text \<open>
  Claim C1, amended.  For a non-empty name and an integer \<open>qty \<ge> 0\<close>, \<^verbatim>\<open>get_qty\<close> of
  the name after \<^verbatim>\<open>add_item\<close> is its value before the call plus exactly \<open>qty\<close>, and the
  name has an entry, whether or not it had one before.  The call returns normally when
  \<open>qty\<close> has no more digits than the interpreter's limit; when it has more, the call
  raises the \<^verbatim>\<open>ValueError\<close> of the conversion, the ledger being updated all the same.
\<close>

theorem add_item_increases_quantity:
  assumes "name \<noteq> []" and "0 \<le> qty"
  shows "\<exists>r s' prior. add_item ip (PStr name) (PInt qty) logs now s = (r, s')
           \<and> get_qty (PStr name) s = Return prior
           \<and> get_qty (PStr name) s' = Return (prior + qty)
           \<and> name \<in> fst ` set (stock_data s')
           \<and> (if exceeds_limit ip qty then r = Raise (digit_limit_error ip)
               else \<exists>out. r = Return out)"
proof -
  obtain r s' where rs: "add_item ip (PStr name) (PInt qty) logs now s = (r, s')"
    by (cases "add_item ip (PStr name) (PInt qty) logs now s")
  have led: "stock_data s'
      = AList.update name (dict_get (stock_data s) name 0 + qty) (stock_data s)"
    using add_item_checked(1) [OF assms, of ip logs now s] rs by simp
  have r: "if exceeds_limit ip qty then r = Raise (digit_limit_error ip) else \<exists>out. r = Return out"
    using add_item_checked(2,3) [OF assms, of ip logs now s] rs by auto
  have "get_qty (PStr name) s = Return (dict_get (stock_data s) name 0)"
    using assms(1) by (simp add: get_qty_def)
  moreover have "get_qty (PStr name) s' = Return (dict_get (stock_data s) name 0 + qty)"
    using assms(1) led by (simp add: get_qty_def dict_get_def update_conv')
  moreover have "name \<in> fst ` set (stock_data s')"
    using led by (simp add: dom_update)
  ultimately show ?thesis
    using rs r by blast
qed

theorem add_item_increases_quantity_witness:
  "\<exists>r s' prior. add_item sample_interp (PStr (ustr ''apple'')) (PInt 5) None (ustr ''now'')
        (module_start\<lparr>stock_data := [(ustr ''apple'', 10)]\<rparr>) = (r, s')
      \<and> get_qty (PStr (ustr ''apple'')) (module_start\<lparr>stock_data := [(ustr ''apple'', 10)]\<rparr>)
          = Return prior
      \<and> get_qty (PStr (ustr ''apple'')) s' = Return (prior + 5)
      \<and> ustr ''apple'' \<in> fst ` set (stock_data s')
      \<and> (\<exists>out. r = Return out)"
proof -
  have "\<not> exceeds_limit sample_interp 5"
    by (simp add: exceeds_limit_def over_limit_def digit_count_def str_nat.simps sample_interp_def)
  moreover have "ustr ''apple'' \<noteq> []" and "(0::int) \<le> 5"
    by (simp_all add: ustr_def)
  ultimately show ?thesis
    using add_item_increases_quantity [of "ustr ''apple''" 5 sample_interp None "ustr ''now''"
      "module_start\<lparr>stock_data := [(ustr ''apple'', 10)]\<rparr>"]
    by simp
qed

section \<open>Removing stock\<close>

text \<open>
  Claim C2, as the code has it.  The ledger holds \<^verbatim>\<open>"a"\<close> with the quantity
  \<open>10 ^ 4300\<close>, and \<^verbatim>\<open>remove_item("a", 10 ** 4300)\<close> is called with the default limit
  of 4300 digits: \<open>0 < qty \<le> q\<close>, yet the call raises the \<^verbatim>\<open>ValueError\<close> of the
  conversion, from the f-string of its log line, after it has deleted the entry.
\<close>

theorem remove_item_digit_limit_counterexample:
  "get_qty (PStr (ustr ''a'')) (module_start\<lparr>stock_data := [(ustr ''a'', 10 ^ 4300)]\<rparr>)
     = Return (10 ^ 4300)
   \<and> fst (remove_item sample_interp (PStr (ustr ''a'')) (PInt (10 ^ 4300)) (ustr ''now'')
        (module_start\<lparr>stock_data := [(ustr ''a'', 10 ^ 4300)]\<rparr>))
     = Raise (digit_limit_error sample_interp)
   \<and> stock_data (snd (remove_item sample_interp (PStr (ustr ''a'')) (PInt (10 ^ 4300))
        (ustr ''now'') (module_start\<lparr>stock_data := [(ustr ''a'', 10 ^ 4300)]\<rparr>))) = []"
proof -
  have gen: "get_qty (PStr (ustr ''a'')) (module_start\<lparr>stock_data := [(ustr ''a'', q)]\<rparr>)
       = Return q
     \<and> fst (remove_item sample_interp (PStr (ustr ''a'')) (PInt q) (ustr ''now'')
          (module_start\<lparr>stock_data := [(ustr ''a'', q)]\<rparr>))
       = Raise (digit_limit_error sample_interp)
     \<and> stock_data (snd (remove_item sample_interp (PStr (ustr ''a'')) (PInt q)
          (ustr ''now'') (module_start\<lparr>stock_data := [(ustr ''a'', q)]\<rparr>))) = []"
    if "0 < q" and "exceeds_limit sample_interp q" for q
  proof -
    let ?s = "module_start\<lparr>stock_data := [(ustr ''a'', q)]\<rparr>"
    have ne: "ustr ''a'' \<noteq> []" by (simp add: ustr_def)
    have cur: "map_of (stock_data ?s) (ustr ''a'') = Some q" by simp
    have "q \<le> q" by simp
    note f = remove_item_checked [OF ne that(1) cur this, of sample_interp "ustr ''now''"]
    have "get_qty (PStr (ustr ''a'')) ?s = Return q"
      using ne by (simp add: get_qty_def dict_get_def)
    moreover have "stock_data (snd (remove_item sample_interp (PStr (ustr ''a'')) (PInt q)
          (ustr ''now'') ?s)) = []"
      using f(1) by (simp add: AList.delete_eq)
    ultimately show ?thesis
      using f(2) [OF that(2)] by blast
  qed
  have "(0::int) < 10 ^ 4300" by (rule zero_less_power) simp
  then show ?thesis
    using exceeds_default_limit by (rule gen)
qed

text \<open>
  Claim C2, amended.  When \<^verbatim>\<open>get_qty\<close> reports a quantity \<open>q > 0\<close> for an item and
  \<open>0 < qty \<le> q\<close>, \<^verbatim>\<open>get_qty\<close> after \<^verbatim>\<open>remove_item\<close> reports \<open>q - qty\<close>.  When that
  is 0 the entry is deleted: \<^verbatim>\<open>get_qty\<close> reports 0, the name is no key of
  \<^verbatim>\<open>stock_data\<close>, which is the old dictionary without that key, so \<^verbatim>\<open>check_low_items\<close>
  does not return the name and \<^verbatim>\<open>print_data\<close> reports the dictionary without it.  The
  call returns normally when \<open>qty\<close> has no more digits than the interpreter's limit; when
  it has more, the call raises the \<^verbatim>\<open>ValueError\<close> of the conversion, the ledger being
  updated all the same.
\<close>

theorem remove_item_decreases_quantity:
  assumes "get_qty (PStr name) s = Return q" and "0 < q" and "0 < qty" and "qty \<le> q"
  shows "\<exists>r s'. remove_item ip (PStr name) (PInt qty) now s = (r, s')
           \<and> (if exceeds_limit ip qty then r = Raise (digit_limit_error ip) else r = Return ())
           \<and> get_qty (PStr name) s' = Return (q - qty)
           \<and> (q - qty = 0 \<longrightarrow>
                 get_qty (PStr name) s' = Return 0
               \<and> name \<notin> fst ` set (stock_data s')
               \<and> stock_data s' = AList.delete name (stock_data s)
               \<and> (\<forall>t names. check_low_items t s' = Return names \<longrightarrow> name \<notin> set names)
               \<and> print_data ip s'
                   = (case print_items ip (AList.delete name (stock_data s))
                             (stdout s' @ ustr ''Items Report'' @ [10]) of
                        (r', out) \<Rightarrow> (r', s'\<lparr>stdout := out\<rparr>)))"
proof -
  from assms(1) have ne: "name \<noteq> []"
    by (simp add: get_qty_def split: if_splits)
  from assms(1,2) ne have cur: "map_of (stock_data s) name = Some q"
    by (auto simp: get_qty_def dict_get_def split: option.splits)
  obtain r s' where rs: "remove_item ip (PStr name) (PInt qty) now s = (r, s')"
    by (cases "remove_item ip (PStr name) (PInt qty) now s")
  have led: "stock_data s' = (if q - qty = 0 then AList.delete name (stock_data s)
       else AList.update name (q - qty) (stock_data s))"
    using remove_item_checked(1) [OF ne assms(3) cur assms(4), of ip now] rs by simp
  have r: "if exceeds_limit ip qty then r = Raise (digit_limit_error ip) else r = Return ()"
    using remove_item_checked(2,3) [OF ne assms(3) cur assms(4), of ip now] rs by auto
  have get: "get_qty (PStr name) s' = Return (q - qty)"
    using ne led by (simp add: get_qty_def dict_get_def delete_conv' update_conv')
  have absent: "name \<notin> fst ` set (stock_data s')" if "q - qty = 0"
    using that led by (auto simp: AList.delete_eq)
  have low: "name \<notin> set names" if "q - qty = 0" and "check_low_items t s' = Return names" for t names
    using absent [OF that(1)] that(2)
    by (auto simp: check_low_items_def split: option.splits if_splits)
  have rep: "print_data ip s'
      = (case print_items ip (AList.delete name (stock_data s))
                (stdout s' @ ustr ''Items Report'' @ [10]) of
           (r', out) \<Rightarrow> (r', s'\<lparr>stdout := out\<rparr>))" if "q - qty = 0"
    using that led by (simp add: print_data_ledger)
  show ?thesis
    using rs r get absent low rep led by auto
qed

theorem remove_item_decreases_quantity_witness:
  "\<exists>r s'. remove_item sample_interp (PStr (ustr ''apple'')) (PInt 15) (ustr ''now'')
          (module_start\<lparr>stock_data := [(ustr ''apple'', 15), (ustr ''pear'', 2)]\<rparr>) = (r, s')
      \<and> r = Return ()
      \<and> get_qty (PStr (ustr ''apple'')) s' = Return 0
      \<and> ustr ''apple'' \<notin> fst ` set (stock_data s')
      \<and> stock_data s' = [(ustr ''pear'', 2)]"
proof -
  have "\<not> exceeds_limit sample_interp 15"
    by (simp add: exceeds_limit_def over_limit_def digit_count_def str_nat.simps sample_interp_def)
  moreover have "get_qty (PStr (ustr ''apple''))
      (module_start\<lparr>stock_data := [(ustr ''apple'', 15), (ustr ''pear'', 2)]\<rparr>) = Return 15"
    by (simp add: get_qty_def dict_get_def ustr_def)
  ultimately show ?thesis
    using remove_item_decreases_quantity [of "ustr ''apple''"
      "module_start\<lparr>stock_data := [(ustr ''apple'', 15), (ustr ''pear'', 2)]\<rparr>" 15 15
      sample_interp "ustr ''now''"]
    by (auto simp: ustr_def AList.delete_eq)
qed

text \<open>
  Claim C4, as the code has it.  With the default limit of 4300 digits and the ledger
  \<^verbatim>\<open>{"a": 5}\<close>, \<^verbatim>\<open>remove_item("a", 10 ** 4300)\<close> asks for more than the entry holds,
  yet the exception is the \<^verbatim>\<open>ValueError\<close> of the conversion and not
  \<^verbatim>\<open>InsufficientStock\<close>: the message of that one cannot be built.  With the ledger
  \<^verbatim>\<open>{"a": 10 ** 4300}\<close> the same call asks for no more than the entry holds, yet it
  raises.
\<close>

theorem remove_item_errors_counterexample:
  "map_of (stock_data (module_start\<lparr>stock_data := [(ustr ''a'', 5)]\<rparr>)) (ustr ''a'') = Some 5
   \<and> 5 < (10::int) ^ 4300
   \<and> fst (remove_item sample_interp (PStr (ustr ''a'')) (PInt (10 ^ 4300)) (ustr ''now'')
        (module_start\<lparr>stock_data := [(ustr ''a'', 5)]\<rparr>))
     = Raise (digit_limit_error sample_interp)
   \<and> \<not> insufficient_stock (ustr ''a'') (PInt (10 ^ 4300)) (digit_limit_error sample_interp)
   \<and> map_of (stock_data (module_start\<lparr>stock_data := [(ustr ''a'', 10 ^ 4300)]\<rparr>)) (ustr ''a'')
       = Some (10 ^ 4300)
   \<and> fst (remove_item sample_interp (PStr (ustr ''a'')) (PInt (10 ^ 4300)) (ustr ''now'')
        (module_start\<lparr>stock_data := [(ustr ''a'', 10 ^ 4300)]\<rparr>))
     = Raise (digit_limit_error sample_interp)"
proof -
  have gen: "map_of (stock_data (module_start\<lparr>stock_data := [(ustr ''a'', 5)]\<rparr>)) (ustr ''a'')
         = Some 5
     \<and> 5 < q
     \<and> fst (remove_item sample_interp (PStr (ustr ''a'')) (PInt q) (ustr ''now'')
          (module_start\<lparr>stock_data := [(ustr ''a'', 5)]\<rparr>))
       = Raise (digit_limit_error sample_interp)
     \<and> \<not> insufficient_stock (ustr ''a'') (PInt q) (digit_limit_error sample_interp)
     \<and> map_of (stock_data (module_start\<lparr>stock_data := [(ustr ''a'', q)]\<rparr>)) (ustr ''a'')
         = Some q
     \<and> fst (remove_item sample_interp (PStr (ustr ''a'')) (PInt q) (ustr ''now'')
          (module_start\<lparr>stock_data := [(ustr ''a'', q)]\<rparr>))
       = Raise (digit_limit_error sample_interp)"
    if "5 < q" and "exceeds_limit sample_interp q" for q
  proof -
    have ne: "ustr ''a'' \<noteq> []" by (simp add: ustr_def)
    have pos: "0 < q" using that(1) by simp
    have "fst (remove_item sample_interp (PStr (ustr ''a'')) (PInt q) (ustr ''now'')
          (module_start\<lparr>stock_data := [(ustr ''a'', 5)]\<rparr>))
       = Raise (digit_limit_error sample_interp)"
      using remove_item_short(2) [OF ne pos _ that(1) that(2), of
          "module_start\<lparr>stock_data := [(ustr ''a'', 5)]\<rparr>" "ustr ''now''"]
      by simp
    moreover have "fst (remove_item sample_interp (PStr (ustr ''a'')) (PInt q) (ustr ''now'')
          (module_start\<lparr>stock_data := [(ustr ''a'', q)]\<rparr>))
       = Raise (digit_limit_error sample_interp)"
      using remove_item_checked(2) [OF ne pos _ _ that(2), of
          "module_start\<lparr>stock_data := [(ustr ''a'', q)]\<rparr>" q "ustr ''now''"]
      by simp
    moreover have "\<not> insufficient_stock (ustr ''a'') (PInt q) (digit_limit_error sample_interp)"
      using insufficient_stock_not_limit [of "ustr ''a''" "PInt q"
          "digit_limit_error sample_interp" sample_interp]
      by blast
    ultimately show ?thesis
      using that(1) by simp
  qed
  have "(10::int) ^ 1 \<le> 10 ^ 4300"
    by (rule power_increasing) simp_all
  moreover have "(5::int) < 10 ^ 1"
    by simp
  ultimately have "5 < (10::int) ^ 4300"
    by (rule less_le_trans [rotated])
  then show ?thesis
    using exceeds_default_limit by (rule gen)
qed

text \<open>
  Claim C4, amended.  The outcomes of \<^verbatim>\<open>remove_item\<close> on a \<^verbatim>\<open>str\<close> name and an \<^verbatim>\<open>int\<close>
  quantity, in the order the code tests them: \<^verbatim>\<open>InvalidArgument\<close> exactly when the name
  is empty or \<open>qty \<le> 0\<close>; otherwise \<^verbatim>\<open>NotFound\<close> exactly when the name has no entry;
  otherwise, for a quantity with no more digits than the interpreter's limit,
  \<^verbatim>\<open>InsufficientStock\<close> exactly when \<open>qty\<close> exceeds the entry's quantity, and a normal
  return exactly when it does not; otherwise, for a quantity with more digits than the
  limit, the \<^verbatim>\<open>ValueError\<close> of the conversion, whatever the entry holds.
\<close>

theorem remove_item_errors:
  "(\<exists>e. fst (remove_item ip (PStr name) (PInt qty) now s) = Raise e \<and> invalid_argument e)
      = (name = [] \<or> qty \<le> 0)
   \<and> (\<exists>e. fst (remove_item ip (PStr name) (PInt qty) now s) = Raise e \<and> not_found name e)
      = (name \<noteq> [] \<and> 0 < qty \<and> map_of (stock_data s) name = None)
   \<and> (\<exists>e. fst (remove_item ip (PStr name) (PInt qty) now s) = Raise e
          \<and> insufficient_stock name (PInt qty) e)
      = (name \<noteq> [] \<and> 0 < qty \<and> (\<exists>cur. map_of (stock_data s) name = Some cur \<and> cur < qty)
          \<and> \<not> exceeds_limit ip qty)
   \<and> (fst (remove_item ip (PStr name) (PInt qty) now s) = Return ())
      = (name \<noteq> [] \<and> 0 < qty \<and> (\<exists>cur. map_of (stock_data s) name = Some cur \<and> qty \<le> cur)
          \<and> \<not> exceeds_limit ip qty)
   \<and> (fst (remove_item ip (PStr name) (PInt qty) now s) = Raise (digit_limit_error ip))
      = (name \<noteq> [] \<and> 0 < qty \<and> (\<exists>cur. map_of (stock_data s) name = Some cur)
          \<and> exceeds_limit ip qty)"
proof -
  let ?r = "fst (remove_item ip (PStr name) (PInt qty) now s)"
  have shape: "\<exists>t. digit_limit_error ip = ValueError (69 # t)"
    by (rule digit_limit_error_shape)
  consider (bad) "name = [] \<or> qty \<le> 0"
    | (absent) "name \<noteq> []" "0 < qty" "map_of (stock_data s) name = None"
    | (short) cur where "name \<noteq> []" "0 < qty" "map_of (stock_data s) name = Some cur" "cur < qty"
    | (enough) cur where "name \<noteq> []" "0 < qty" "map_of (stock_data s) name = Some cur" "qty \<le> cur"
    by (cases "map_of (stock_data s) name") force+
  then show ?thesis
  proof cases
    case bad
    then have "?r = Raise (TypeError (ustr ''item must be a non-empty string''))
        \<or> ?r = Raise (ValueError (ustr ''qty must be positive''))"
      by (auto simp: remove_item_def)
    then show ?thesis
      using bad shape
      by (auto simp: invalid_argument_def not_found_def insufficient_stock_def ustr_def)
  next
    case absent
    then have "?r = Raise (KeyError (ustr ''Item '' @ quoted name @ ustr '' not found in stock''))"
      by (simp add: remove_item_def)
    then show ?thesis
      using absent shape
      by (auto simp: invalid_argument_def not_found_def insufficient_stock_def ustr_def)
  next
    case short
    note f = remove_item_short(2,3) [OF short, of ip now]
    show ?thesis
    proof (cases "exceeds_limit ip qty")
      case True
      then show ?thesis
        using f(1) short shape
        by (auto simp: invalid_argument_def not_found_def insufficient_stock_def ustr_def)
    next
      case False
      then show ?thesis
        using f(2) short shape
        by (auto simp: invalid_argument_def not_found_def insufficient_stock_def ustr_def)
    qed
  next
    case enough
    note f = remove_item_checked(2,3) [OF enough, of ip now]
    show ?thesis
    proof (cases "exceeds_limit ip qty")
      case True
      then show ?thesis
        using f(1) enough shape
        by (auto simp: invalid_argument_def not_found_def insufficient_stock_def ustr_def)
    next
      case False
      then show ?thesis
        using f(2) enough shape
        by (auto simp: invalid_argument_def not_found_def insufficient_stock_def ustr_def)
    qed
  qed
qed

theorem remove_item_errors_witness:
  "(\<exists>e. fst (remove_item sample_interp (PStr (ustr ''apple'')) (PInt 20) (ustr ''now'')
            (module_start\<lparr>stock_data := [(ustr ''apple'', 15)]\<rparr>)) = Raise e
        \<and> insufficient_stock (ustr ''apple'') (PInt 20) e)
   \<and> (\<exists>e. fst (remove_item sample_interp (PStr (ustr ''pear'')) (PInt 1) (ustr ''now'')
            (module_start\<lparr>stock_data := [(ustr ''apple'', 15)]\<rparr>)) = Raise e
        \<and> not_found (ustr ''pear'') e)
   \<and> (\<exists>e. fst (remove_item sample_interp (PStr (ustr ''apple'')) (PInt 0) (ustr ''now'')
            (module_start\<lparr>stock_data := [(ustr ''apple'', 15)]\<rparr>)) = Raise e
        \<and> invalid_argument e)
   \<and> fst (remove_item sample_interp (PStr (ustr ''apple'')) (PInt 15) (ustr ''now'')
            (module_start\<lparr>stock_data := [(ustr ''apple'', 15)]\<rparr>)) = Return ()"
proof -
  have "\<not> exceeds_limit sample_interp 15" and "\<not> exceeds_limit sample_interp 20"
    by (simp_all add: exceeds_limit_def over_limit_def digit_count_def str_nat.simps
        sample_interp_def)
  then show ?thesis
    using remove_item_errors [of sample_interp "ustr ''apple''" 20 "ustr ''now''"
        "module_start\<lparr>stock_data := [(ustr ''apple'', 15)]\<rparr>"]
      remove_item_errors [of sample_interp "ustr ''pear''" 1 "ustr ''now''"
        "module_start\<lparr>stock_data := [(ustr ''apple'', 15)]\<rparr>"]
      remove_item_errors [of sample_interp "ustr ''apple''" 0 "ustr ''now''"
        "module_start\<lparr>stock_data := [(ustr ''apple'', 15)]\<rparr>"]
      remove_item_errors [of sample_interp "ustr ''apple''" 15 "ustr ''now''"
        "module_start\<lparr>stock_data := [(ustr ''apple'', 15)]\<rparr>"]
    by (simp add: ustr_def)
qed

section \<open>Argument checks\<close>

text \<open>
  Claim C5.  Malformed input makes each core operation raise \<^verbatim>\<open>InvalidArgument\<close> to its
  caller, with the state as it was: an empty name (whatever the quantity) for
  \<^verbatim>\<open>add_item\<close>, \<^verbatim>\<open>remove_item\<close> and \<^verbatim>\<open>get_qty\<close>; a negative quantity for \<^verbatim>\<open>add_item\<close>
  and a quantity \<open>\<le> 0\<close> for \<^verbatim>\<open>remove_item\<close> (whatever the item); a negative threshold
  for \<^verbatim>\<open>check_low_items\<close>.
\<close>

theorem malformed_input_raises:
  "(\<exists>e. add_item ip (PStr []) qty logs now s = (Raise e, s) \<and> invalid_argument e)
   \<and> (n < 0 \<longrightarrow> (\<exists>e. add_item ip item (PInt n) logs now s = (Raise e, s) \<and> invalid_argument e))
   \<and> (\<exists>e. remove_item ip (PStr []) qty now s = (Raise e, s) \<and> invalid_argument e)
   \<and> (n' \<le> 0 \<longrightarrow> (\<exists>e. remove_item ip item (PInt n') now s = (Raise e, s) \<and> invalid_argument e))
   \<and> (\<exists>e. get_qty (PStr []) s = Raise e \<and> invalid_argument e)
   \<and> (t < 0 \<longrightarrow> (\<exists>e. check_low_items (Some (PInt t)) s = Raise e \<and> invalid_argument e))"
  by (auto simp: add_item_def remove_item_def get_qty_def check_low_items_def
      invalid_argument_def split: pyval.splits)

theorem malformed_input_raises_witness:
  "(\<exists>e. add_item sample_interp (PStr (ustr ''apple'')) (PInt (- 1)) None (ustr ''now'') module_start
          = (Raise e, module_start) \<and> invalid_argument e)
   \<and> (\<exists>e. remove_item sample_interp (PStr (ustr ''apple'')) (PInt 0) (ustr ''now'') module_start
          = (Raise e, module_start) \<and> invalid_argument e)
   \<and> (\<exists>e. check_low_items (Some (PInt (- 1))) module_start = Raise e \<and> invalid_argument e)"
  using malformed_input_raises [of sample_interp "PInt 0" None "ustr ''now''" module_start "- 1"
      "PStr (ustr ''apple'')" 0 "- 1"]
  by simp

text \<open>
  Claim C10, as the code has it.  With the default limit of 4300 digits,
  \<^verbatim>\<open>add_item("a", 10 ** 4300)\<close> on the empty ledger raises and leaves the entry
  \<^verbatim>\<open>"a": 10 ** 4300\<close> behind; \<^verbatim>\<open>remove_item("a", 10 ** 4300)\<close> on the ledger
  \<^verbatim>\<open>{"a": 10 ** 4300 + 1}\<close> raises and leaves \<^verbatim>\<open>{"a": 1}\<close>.  Both write \<^verbatim>\<open>stock_data\<close>
  before they build the text of their log line.
\<close>

theorem failed_mutation_counterexample:
  "fst (add_item sample_interp (PStr (ustr ''a'')) (PInt (10 ^ 4300)) None (ustr ''now'')
      module_start) = Raise (digit_limit_error sample_interp)
   \<and> stock_data module_start = []
   \<and> stock_data (snd (add_item sample_interp (PStr (ustr ''a'')) (PInt (10 ^ 4300)) None
        (ustr ''now'') module_start)) = [(ustr ''a'', 10 ^ 4300)]
   \<and> fst (remove_item sample_interp (PStr (ustr ''a'')) (PInt (10 ^ 4300)) (ustr ''now'')
        (module_start\<lparr>stock_data := [(ustr ''a'', 10 ^ 4300 + 1)]\<rparr>))
     = Raise (digit_limit_error sample_interp)
   \<and> stock_data (snd (remove_item sample_interp (PStr (ustr ''a'')) (PInt (10 ^ 4300))
        (ustr ''now'') (module_start\<lparr>stock_data := [(ustr ''a'', 10 ^ 4300 + 1)]\<rparr>)))
     = [(ustr ''a'', 1)]"
proof -
  have gen: "fst (add_item sample_interp (PStr (ustr ''a'')) (PInt q) None (ustr ''now'')
        module_start) = Raise (digit_limit_error sample_interp)
     \<and> stock_data module_start = []
     \<and> stock_data (snd (add_item sample_interp (PStr (ustr ''a'')) (PInt q) None
          (ustr ''now'') module_start)) = [(ustr ''a'', q)]
     \<and> fst (remove_item sample_interp (PStr (ustr ''a'')) (PInt q) (ustr ''now'')
          (module_start\<lparr>stock_data := [(ustr ''a'', q + 1)]\<rparr>))
       = Raise (digit_limit_error sample_interp)
     \<and> stock_data (snd (remove_item sample_interp (PStr (ustr ''a'')) (PInt q)
          (ustr ''now'') (module_start\<lparr>stock_data := [(ustr ''a'', q + 1)]\<rparr>)))
       = [(ustr ''a'', 1)]"
    if "0 < q" and "exceeds_limit sample_interp q" for q
  proof -
    have ne: "ustr ''a'' \<noteq> []" by (simp add: ustr_def)
    have nn: "0 \<le> q" using that(1) by simp
    note a = add_item_checked [OF ne nn, of sample_interp None "ustr ''now''" module_start]
    have cur: "map_of (stock_data (module_start\<lparr>stock_data := [(ustr ''a'', q + 1)]\<rparr>))
        (ustr ''a'') = Some (q + 1)"
      by simp
    have "q \<le> q + 1" by simp
    note r = remove_item_checked [OF ne that(1) cur this, of sample_interp "ustr ''now''"]
    have "stock_data module_start = []"
      by (simp add: module_start_def)
    moreover from this have "stock_data (snd (add_item sample_interp (PStr (ustr ''a'')) (PInt q)
        None (ustr ''now'') module_start)) = [(ustr ''a'', q)]"
      using a(1) by (simp add: dict_get_def)
    moreover have "stock_data (snd (remove_item sample_interp (PStr (ustr ''a'')) (PInt q)
          (ustr ''now'') (module_start\<lparr>stock_data := [(ustr ''a'', q + 1)]\<rparr>)))
       = [(ustr ''a'', 1)]"
      using r(1) by simp
    ultimately show ?thesis
      using a(2) [OF that(2)] r(2) [OF that(2)] by blast
  qed
  have "(0::int) < 10 ^ 4300" by (rule zero_less_power) simp
  then show ?thesis
    using exceeds_default_limit by (rule gen)
qed

text \<open>
  Claim C10, amended.  A call of \<^verbatim>\<open>add_item\<close> or \<^verbatim>\<open>remove_item\<close> that raises anything
  but the \<^verbatim>\<open>ValueError\<close> of the conversion leaves the whole state, the ledger included,
  exactly as it was; \<^verbatim>\<open>InvalidArgument\<close>, \<^verbatim>\<open>NotFound\<close> and \<^verbatim>\<open>InsufficientStock\<close> are
  never that error.  So does a call of \<^verbatim>\<open>remove_item\<close> that raises, whatever it
  raises, when it asks for more than the entry holds.
\<close>

theorem failed_mutation_leaves_state:
  "(fst (add_item ip item qty logs now s) = Raise e \<and> e \<noteq> digit_limit_error ip
      \<longrightarrow> snd (add_item ip item qty logs now s) = s)
   \<and> (fst (remove_item ip item qty now s) = Raise e \<and> e \<noteq> digit_limit_error ip
      \<longrightarrow> snd (remove_item ip item qty now s) = s)
   \<and> (invalid_argument e \<or> not_found name e \<or> insufficient_stock name qty e
      \<longrightarrow> e \<noteq> digit_limit_error ip)
   \<and> (fst (remove_item ip (PStr name) qty now s) = Raise e
        \<and> (\<exists>cur n. map_of (stock_data s) name = Some cur \<and> as_int qty = Some n \<and> cur < n)
      \<longrightarrow> snd (remove_item ip (PStr name) qty now s) = s)"
proof (intro conjI impI; (elim conjE)?)
  assume "fst (add_item ip item qty logs now s) = Raise e" and "e \<noteq> digit_limit_error ip"
  then show "snd (add_item ip item qty logs now s) = s"
    by (cases qty)
      (auto simp: add_item_def Let_def int_str_def split: pyval.splits if_splits)
next
  assume "fst (remove_item ip item qty now s) = Raise e" and "e \<noteq> digit_limit_error ip"
  then show "snd (remove_item ip item qty now s) = s"
    by (cases qty)
      (auto simp: remove_item_def Let_def int_str_def split: pyval.splits option.splits if_splits)
next
  assume "invalid_argument e \<or> not_found name e \<or> insufficient_stock name qty e"
  then show "e \<noteq> digit_limit_error ip"
    using invalid_argument_not_limit not_found_not_limit insufficient_stock_not_limit by blast
next
  assume "fst (remove_item ip (PStr name) qty now s) = Raise e"
    and "\<exists>cur n. map_of (stock_data s) name = Some cur \<and> as_int qty = Some n \<and> cur < n"
  then show "snd (remove_item ip (PStr name) qty now s) = s"
    by (cases qty)
      (auto simp: remove_item_def Let_def int_str_def split: if_splits)
qed

theorem failed_mutation_leaves_state_witness:
  "fst (remove_item sample_interp (PStr (ustr ''apple'')) (PInt 20) (ustr ''now'')
          (module_start\<lparr>stock_data := [(ustr ''apple'', 15)]\<rparr>))
     = Raise (ValueError (ustr ''Not enough stock for '' @ quoted (ustr ''apple'')
          @ ustr '' to remove '' @ qty_text (PInt 20)))
   \<and> insufficient_stock (ustr ''apple'') (PInt 20)
        (ValueError (ustr ''Not enough stock for '' @ quoted (ustr ''apple'')
          @ ustr '' to remove '' @ qty_text (PInt 20)))
   \<and> snd (remove_item sample_interp (PStr (ustr ''apple'')) (PInt 20) (ustr ''now'')
          (module_start\<lparr>stock_data := [(ustr ''apple'', 15)]\<rparr>))
     = module_start\<lparr>stock_data := [(ustr ''apple'', 15)]\<rparr>
   \<and> fst (add_item sample_interp (PStr (ustr ''apple'')) (PInt (- 3)) None (ustr ''now'')
          (module_start\<lparr>stock_data := [(ustr ''apple'', 15)]\<rparr>))
     = Raise (ValueError (ustr ''qty must be non-negative''))
   \<and> invalid_argument (ValueError (ustr ''qty must be non-negative''))
   \<and> snd (add_item sample_interp (PStr (ustr ''apple'')) (PInt (- 3)) None (ustr ''now'')
          (module_start\<lparr>stock_data := [(ustr ''apple'', 15)]\<rparr>))
     = module_start\<lparr>stock_data := [(ustr ''apple'', 15)]\<rparr>"
proof -
  let ?s = "module_start\<lparr>stock_data := [(ustr ''apple'', 15)]\<rparr>"
  let ?short = "ValueError (ustr ''Not enough stock for '' @ quoted (ustr ''apple'')
          @ ustr '' to remove '' @ qty_text (PInt 20))"
  let ?neg = "ValueError (ustr ''qty must be non-negative'')"
  have i: "insufficient_stock (ustr ''apple'') (PInt 20) ?short"
    by (simp add: insufficient_stock_def)
  have n: "invalid_argument ?neg"
    by (simp add: invalid_argument_def)
  have r: "fst (remove_item sample_interp (PStr (ustr ''apple'')) (PInt 20) (ustr ''now'') ?s)
      = Raise ?short"
    by (simp add: remove_item_def ustr_def int_str_def exceeds_limit_def over_limit_def
        digit_count_def str_nat.simps sample_interp_def)
  have a: "fst (add_item sample_interp (PStr (ustr ''apple'')) (PInt (- 3)) None (ustr ''now'') ?s)
      = Raise ?neg"
    by (simp add: add_item_def ustr_def)
  from failed_mutation_leaves_state [where ip = sample_interp and item = "PStr (ustr ''apple'')"
      and qty = "PInt (- 3)" and logs = None and now = "ustr ''now''" and s = ?s and e = ?neg
      and name = "ustr ''apple''"]
    failed_mutation_leaves_state [where ip = sample_interp and item = "PStr (ustr ''apple'')"
      and qty = "PInt 20" and now = "ustr ''now''" and s = ?s and e = ?short
      and name = "ustr ''apple''"]
    i n r a
  show ?thesis by blast
qed

section \<open>Low stock\<close>

text \<open>
  Claim C9.  For a threshold \<open>t \<ge> 0\<close>, \<^verbatim>\<open>check_low_items\<close> returns exactly the names of
  the entries whose quantity is strictly below \<open>t\<close> (each once, as the keys of a
  dictionary are distinct); the threshold left out is 5; on the ledger
  \<^verbatim>\<open>{"apple": 3, "banana": 10}\<close> the result is \<^verbatim>\<open>["apple"]\<close>.
\<close>

theorem check_low_items_exact:
  "(0 \<le> t \<longrightarrow>
      (\<exists>names. check_low_items (Some (PInt t)) s = Return names
         \<and> (\<forall>name. (name \<in> set names) = (\<exists>q. (name, q) \<in> set (stock_data s) \<and> q < t))
         \<and> (distinct (map fst (stock_data s)) \<longrightarrow>
               distinct names
             \<and> (\<forall>name. (name \<in> set names)
                   = (\<exists>q. map_of (stock_data s) name = Some q \<and> q < t)))))
   \<and> check_low_items None s = check_low_items (Some (PInt 5)) s
   \<and> check_low_items None (s\<lparr>stock_data := [(ustr ''apple'', 3), (ustr ''banana'', 10)]\<rparr>)
       = Return [ustr ''apple'']"
proof -
  have d: "distinct (map fst (filter P xs))" if "distinct (map fst xs)" for P and xs :: "(pystr \<times> int) list"
    using that by (induction xs) auto
  show ?thesis
    by (auto simp: check_low_items_def d image_iff)
qed

theorem check_low_items_exact_witness:
  "(\<exists>names. check_low_items (Some (PInt 4))
        (module_start\<lparr>stock_data := [(ustr ''apple'', 3), (ustr ''banana'', 10)]\<rparr>) = Return names
      \<and> (\<forall>name. (name \<in> set names)
            = (\<exists>q. (name, q) \<in> set (stock_data
                 (module_start\<lparr>stock_data := [(ustr ''apple'', 3), (ustr ''banana'', 10)]\<rparr>))
                 \<and> q < 4)))
   \<and> check_low_items (Some (PInt 4))
        (module_start\<lparr>stock_data := [(ustr ''apple'', 3), (ustr ''banana'', 10)]\<rparr>)
       = Return [ustr ''apple'']"
proof -
  have "(0::int) \<le> 4" by simp
  with check_low_items_exact [of 4
      "module_start\<lparr>stock_data := [(ustr ''apple'', 3), (ustr ''banana'', 10)]\<rparr>"]
  have "\<exists>names. check_low_items (Some (PInt 4))
        (module_start\<lparr>stock_data := [(ustr ''apple'', 3), (ustr ''banana'', 10)]\<rparr>) = Return names
      \<and> (\<forall>name. (name \<in> set names)
            = (\<exists>q. (name, q) \<in> set (stock_data
                 (module_start\<lparr>stock_data := [(ustr ''apple'', 3), (ustr ''banana'', 10)]\<rparr>))
                 \<and> q < 4))"
    by blast
  moreover have "check_low_items (Some (PInt 4))
        (module_start\<lparr>stock_data := [(ustr ''apple'', 3), (ustr ''banana'', 10)]\<rparr>)
       = Return [ustr ''apple'']"
    by (simp add: check_low_items_def)
  ultimately show ?thesis by blast
qed

section \<open>The sign of the quantities\<close>




section \<open>Loading\<close>

lemma clean_items_distinct:
  "distinct (map fst cleaned) \<Longrightarrow> clean_items ip items cleaned s = (Return c, s')
     \<Longrightarrow> distinct (map fst c)"
proof (induction items arbitrary: cleaned s)
  case Nil
  then show ?case by simp
next
  case (Cons kv items)
  obtain k v where kv: "kv = (k, v)" by (cases kv)
  show ?case
  proof (cases k)
    case (PStr name)
    show ?thesis
    proof (cases "py_int ip v")
      case (Return n)
      with Cons.prems PStr kv have
        "clean_items ip items (AList.update name n cleaned) s = (Return c, s')"
        by simp
      moreover have "distinct (map fst (AList.update name n cleaned))"
        using Cons.prems(1) by (simp add: distinct_update)
      ultimately show ?thesis by (rule Cons.IH [rotated])
    next
      case (Raise e)
      with Cons.prems PStr kv show ?thesis
        by (auto split: if_splits intro: Cons.IH)
    qed
  qed (use Cons.prems kv in \<open>auto intro: Cons.IH\<close>)
qed

text \<open>
  Claim C7.  \<^verbatim>\<open>load_data\<close> returns normally whatever the path, the files and the
  interpreter are, and leaves a dictionary (distinct \<^verbatim>\<open>str\<close> keys, \<^verbatim>\<open>int\<close> values).
  When the file does not exist, when its text is malformed JSON, and when the
  decoded value is no object, the ledger is reset to empty and the condition is logged:
  a warning for the missing file, an error for the other two.
\<close>

theorem load_data_never_raises:
  "fst (load_data ip file s) = Return ()
   \<and> distinct (map fst (stock_data (snd (load_data ip file s))))
   \<and> (files s path = Missing \<longrightarrow>
        stock_data (snd (load_data ip (Some path) s)) = []
      \<and> log (snd (load_data ip (Some path) s)) = log s @
          [(WARNING, ustr ''Inventory file %s not found '' @ [8212]
              @ ustr '' starting with empty inventory'', [ArgVal (PStr path)])])
   \<and> (files s path = Content text \<and> json_loads ip text = Raise JSONDecodeError \<longrightarrow>
        stock_data (snd (load_data ip (Some path) s)) = []
      \<and> log (snd (load_data ip (Some path) s)) = log s @
          [(ERROR, ustr ''Invalid JSON in %s: %s'', [ArgVal (PStr path), ArgExn JSONDecodeError])])
   \<and> (files s path = Content text \<and> json_loads ip text = Return data
        \<and> (case data of PDict items \<Rightarrow> False | _ \<Rightarrow> True) \<longrightarrow>
        stock_data (snd (load_data ip (Some path) s)) = []
      \<and> log (snd (load_data ip (Some path) s)) = log s @
          [(ERROR, ustr ''Unexpected error while loading data: %s'',
            [ArgExn (ValueError (ustr ''inventory file must contain a JSON object''))])])"
proof (intro conjI impI)
  show "fst (load_data ip file s) = Return ()"
    by (simp add: load_data_def Let_def split: prod.splits result.splits)
  show "distinct (map fst (stock_data (snd (load_data ip file s))))"
    by (auto simp: load_data_def load_body_def Let_def logging_def
        split: prod.splits result.splits pyval.splits
        dest: clean_items_distinct [rotated])
next
  assume "files s path = Missing"
  then show "stock_data (snd (load_data ip (Some path) s)) = []"
    and "log (snd (load_data ip (Some path) s)) = log s @
          [(WARNING, ustr ''Inventory file %s not found '' @ [8212]
              @ ustr '' starting with empty inventory'', [ArgVal (PStr path)])]"
    by (simp_all add: load_data_def load_body_def read_text_def logging_def)
next
  assume "files s path = Content text \<and> json_loads ip text = Raise JSONDecodeError"
  then show "stock_data (snd (load_data ip (Some path) s)) = []"
    and "log (snd (load_data ip (Some path) s)) = log s @
          [(ERROR, ustr ''Invalid JSON in %s: %s'', [ArgVal (PStr path), ArgExn JSONDecodeError])]"
    by (simp_all add: load_data_def load_body_def read_text_def logging_def)
next
  assume a: "files s path = Content text \<and> json_loads ip text = Return data
        \<and> (case data of PDict items \<Rightarrow> False | _ \<Rightarrow> True)"
  then show "stock_data (snd (load_data ip (Some path) s)) = []"
    and "log (snd (load_data ip (Some path) s)) = log s @
          [(ERROR, ustr ''Unexpected error while loading data: %s'',
            [ArgExn (ValueError (ustr ''inventory file must contain a JSON object''))])]"
    by (cases data; simp add: load_data_def load_body_def read_text_def logging_def)+
qed

theorem load_data_never_raises_witness:
  \<open>fst (load_data sample_interp (Some (ustr ''none.json''))
       (module_start\<lparr>stock_data := [(ustr ''apple'', 3)]\<rparr>)) = Return ()
   \<and> stock_data (snd (load_data sample_interp (Some (ustr ''none.json''))
       (module_start\<lparr>stock_data := [(ustr ''apple'', 3)]\<rparr>))) = []
   \<and> stock_data (snd (load_data sample_interp (Some (ustr ''bad.json''))
       (module_start\<lparr>stock_data := [(ustr ''apple'', 3)],
          files := (\<lambda>_. Content (ustr ''{"a": 1,''))\<rparr>))) = []
   \<and> stock_data (snd (load_data sample_interp (Some (ustr ''list.json''))
       (module_start\<lparr>stock_data := [(ustr ''apple'', 3)],
          files := (\<lambda>_. Content (ustr ''[1, 2]''))\<rparr>))) = []\<close>
proof -
  let ?s = "module_start\<lparr>stock_data := [(ustr ''apple'', 3)]\<rparr>"
  have m: "files ?s (ustr ''none.json'') = Missing"
    by (simp add: module_start_def)
  have b: \<open>files (?s\<lparr>files := (\<lambda>_. Content (ustr ''{"a": 1,''))\<rparr>) (ustr ''bad.json'')
        = Content (ustr ''{"a": 1,'')
      \<and> json_loads sample_interp (ustr ''{"a": 1,'') = Raise JSONDecodeError\<close>
    by (simp add: json_eval sample_interp_def)
  have l: \<open>files (?s\<lparr>files := (\<lambda>_. Content (ustr ''[1, 2]''))\<rparr>) (ustr ''list.json'')
        = Content (ustr ''[1, 2]'')
      \<and> json_loads sample_interp (ustr ''[1, 2]'') = Return (PList [PInt 1, PInt 2])
      \<and> (case PList [PInt 1, PInt 2] of PDict items \<Rightarrow> False | _ \<Rightarrow> True)\<close>
    by (simp add: json_eval sample_interp_def)
  from load_data_never_raises [of sample_interp "Some (ustr ''none.json'')" ?s
      "ustr ''none.json''"] m
    load_data_never_raises [of sample_interp None
      \<open>?s\<lparr>files := (\<lambda>_. Content (ustr ''{"a": 1,''))\<rparr>\<close> "ustr ''bad.json''"
      \<open>ustr ''{"a": 1,''\<close>] b
    load_data_never_raises [of sample_interp None
      \<open>?s\<lparr>files := (\<lambda>_. Content (ustr ''[1, 2]''))\<rparr>\<close> "ustr ''list.json''"
      \<open>ustr ''[1, 2]''\<close> "PList [PInt 1, PInt 2]"] l
  show ?thesis by simp
qed

text \<open>
  Claim C8, as the code has it.  In the text \<^verbatim>\<open>{"a": 1, "b": "x", 2: 3}\<close> the key
  \<^verbatim>\<open>2\<close> has no quotation marks: the text is malformed JSON, the decoder raises
  \<^verbatim>\<open>JSONDecodeError\<close> and \<^verbatim>\<open>load_data\<close> resets the ledger to empty instead of keeping
  \<^verbatim>\<open>"a"\<close>.
\<close>

theorem unquoted_key_counterexample:
  \<open>fst (load_data sample_interp (Some (ustr ''inventory.json''))
       (module_start\<lparr>files := (\<lambda>_. Content (ustr ''{"a": 1, "b": "x", 2: 3}''))\<rparr>)) = Return ()
   \<and> stock_data (snd (load_data sample_interp (Some (ustr ''inventory.json''))
       (module_start\<lparr>files := (\<lambda>_. Content (ustr ''{"a": 1, "b": "x", 2: 3}''))\<rparr>))) = []
   \<and> stock_data (snd (load_data sample_interp (Some (ustr ''inventory.json''))
       (module_start\<lparr>files := (\<lambda>_. Content (ustr ''{"a": 1, "b": "x", 2: 3}''))\<rparr>)))
      \<noteq> [(ustr ''a'', 1)]\<close>
  by (simp add: json_eval sample_interp_def module_start_def load_data_def load_body_def
      read_text_def logging_def)

lemma json_loads_unquoted_key:
  \<open>json_loads ip (ustr ''{"a": 1, "b": "x", 2: 3}'')
     = (if recursion_limit ip = 0 then Raise RecursionError else Raise JSONDecodeError)\<close>
  by (simp add: json_eval split: nat.splits)

lemma json_loads_two_pairs:
  \<open>json_loads ip (ustr ''{"a": 1, "b": "x"}'')
     = (if recursion_limit ip = 0 then Raise RecursionError
        else Return (PDict [(PStr (ustr ''a''), PInt 1), (PStr (ustr ''b''), PStr (ustr ''x''))]))\<close>
  by (simp add: json_eval split: nat.splits)

lemma py_int_PInt: "py_int ip (PInt n) = Return n"
  by simp

lemma py_int_x: "py_int ip (PStr (ustr ''x'')) = Raise invalid_literal"
  by (simp add: json_eval)

text \<open>
  Claim C8, amended.  A file with the text \<^verbatim>\<open>{"a": 1, "b": "x", 2: 3}\<close> loads as the
  empty ledger.  A file with the text \<^verbatim>\<open>{"a": 1, "b": "x"}\<close> loads as exactly
  \<^verbatim>\<open>{"a": 1}\<close>.  On the items \<^verbatim>\<open>"a": 1\<close>, \<^verbatim>\<open>"b": "x"\<close> and \<^verbatim>\<open>2: 3\<close> of a decoded
  dictionary, the loop of \<^verbatim>\<open>load_data\<close> keeps exactly \<^verbatim>\<open>"a": 1\<close> and skips the value
  that is no integer and the key that is no \<^verbatim>\<open>str\<close>, each with a warning.
\<close>

theorem load_data_filters_entries:
  \<open>(files s path = Content (ustr ''{"a": 1, "b": "x", 2: 3}'') \<longrightarrow>
      fst (load_data ip (Some path) s) = Return ()
    \<and> stock_data (snd (load_data ip (Some path) s)) = [])
   \<and> (files s path = Content (ustr ''{"a": 1, "b": "x"}'') \<and> 0 < recursion_limit ip \<longrightarrow>
      fst (load_data ip (Some path) s) = Return ()
    \<and> stock_data (snd (load_data ip (Some path) s)) = [(ustr ''a'', 1)])
   \<and> clean_items ip
        [(PStr (ustr ''a''), PInt 1), (PStr (ustr ''b''), PStr (ustr ''x'')), (PInt 2, PInt 3)] [] s
      = (Return [(ustr ''a'', 1)],
         s\<lparr>log := log s @
           [(WARNING, ustr ''Skipping key with non-integer value: %s=%r'',
               [ArgVal (PStr (ustr ''b'')), ArgVal (PStr (ustr ''x''))]),
            (WARNING, ustr ''Skipping non-string key in inventory file: %r'',
               [ArgVal (PInt 2)])]\<rparr>)\<close>
proof -
  have c: "clean_items ip
        [(PStr (ustr ''a''), PInt 1), (PStr (ustr ''b''), PStr (ustr ''x'')), (PInt 2, PInt 3)] [] s
      = (Return [(ustr ''a'', 1)],
         s\<lparr>log := log s @
           [(WARNING, ustr ''Skipping key with non-integer value: %s=%r'',
               [ArgVal (PStr (ustr ''b'')), ArgVal (PStr (ustr ''x''))]),
            (WARNING, ustr ''Skipping non-string key in inventory file: %r'',
               [ArgVal (PInt 2)])]\<rparr>)"
    by (simp del: py_int.simps add: py_int_x py_int_PInt logging_def invalid_literal_def)
  have d: "clean_items ip [(PStr (ustr ''a''), PInt 1), (PStr (ustr ''b''), PStr (ustr ''x''))] [] s
      = (Return [(ustr ''a'', 1)],
         s\<lparr>log := log s @
           [(WARNING, ustr ''Skipping key with non-integer value: %s=%r'',
               [ArgVal (PStr (ustr ''b'')), ArgVal (PStr (ustr ''x''))])]\<rparr>)"
    by (simp del: py_int.simps add: py_int_x py_int_PInt logging_def invalid_literal_def)
  show ?thesis
    using c
    by (simp add: load_data_def load_body_def read_text_def json_loads_unquoted_key
      json_loads_two_pairs d logging_def del: clean_items.simps)
qed

theorem load_data_filters_entries_witness:
  \<open>stock_data (snd (load_data sample_interp (Some (ustr ''inventory.json''))
       (module_start\<lparr>files := (\<lambda>_. Content (ustr ''{"a": 1, "b": "x"}''))\<rparr>)))
     = [(ustr ''a'', 1)]
   \<and> stock_data (snd (load_data sample_interp (Some (ustr ''inventory.json''))
       (module_start\<lparr>files := (\<lambda>_. Content (ustr ''{"a": 1, "b": "x", 2: 3}''))\<rparr>))) = []\<close>
  using load_data_filters_entries [of
      \<open>module_start\<lparr>files := (\<lambda>_. Content (ustr ''{"a": 1, "b": "x"}''))\<rparr>\<close>
      "ustr ''inventory.json''" sample_interp]
    load_data_filters_entries [of
      \<open>module_start\<lparr>files := (\<lambda>_. Content (ustr ''{"a": 1, "b": "x", 2: 3}''))\<rparr>\<close>
      "ustr ''inventory.json''" sample_interp]
  by (simp add: sample_interp_def ustr_def)

section \<open>Saving and loading again\<close>

subsection \<open>Escapes and decimal text\<close>

lemma hex_value_hex_digit: "d < 16 \<Longrightarrow> hex_value (hex_digit d) = Some d"
  by (auto simp: hex_value_def hex_digit_def)

lemma str_nat_nonempty: "str_nat n \<noteq> []"
  by (subst str_nat.simps) simp

lemma str_nat_zero: "str_nat 0 = [48]"
  by (subst str_nat.simps) simp

lemma digits_value_snoc:
  "c \<noteq> 95 \<Longrightarrow> digits_value (xs @ [c]) = 10 * digits_value xs + (c - 48)"
  by (simp add: digits_value_def)

lemma grouped_digits: "xs \<noteq> [] \<Longrightarrow> list_all is_digit xs \<Longrightarrow> grouped xs"
  by (induction xs rule: grouped.induct) (auto simp: is_digit_def)

lemma takeWhile_digits:
  "list_all P xs \<Longrightarrow> \<not> P c \<Longrightarrow> takeWhile P (xs @ c # r) = xs"
  by (induction xs) auto

lemma dropWhile_digits:
  "list_all P xs \<Longrightarrow> \<not> P c \<Longrightarrow> dropWhile P (xs @ c # r) = c # r"
  by (induction xs) auto

lemma takeWhile_all: "list_all P xs \<Longrightarrow> takeWhile P xs = xs"
  by (induction xs) auto

lemma dropWhile_all: "list_all P xs \<Longrightarrow> dropWhile P xs = []"
  by (induction xs) auto

lemma digit_or_underscore: "list_all is_digit xs \<Longrightarrow> list_all (\<lambda>c. is_digit c \<or> c = 95) xs"
  by (induction xs) auto

lemma hex_recompose:
  fixes n :: nat
  assumes "n < 65536"
  shows "4096 * (n div 4096 mod 16) + 256 * (n div 256 mod 16) + n div 16 mod 16 * 16
      + n mod 16 = n"
proof -
  define a where "a = n div 16"
  define b where "b = a div 16"
  define c where "c = b div 16"
  have d256: "n div 256 = b" and d4096: "n div 4096 = c"
    unfolding a_def b_def c_def by (simp_all add: div_mult2_eq [symmetric])
  have "c < 16" using assms unfolding d4096 [symmetric] by simp
  then have cm: "c mod 16 = c" by simp
  define x where "x = n mod 16"
  define y where "y = a mod 16"
  define z where "z = b mod 16"
  have n: "n = 16 * a + x" unfolding a_def x_def by simp
  have a: "a = 16 * b + y" unfolding b_def y_def by simp
  have b: "b = 16 * c + z" unfolding c_def z_def by simp
  have "4096 * c + 256 * z + y * 16 + x = n"
    unfolding n a b by simp
  then show ?thesis
    unfolding d256 d4096 cm x_def y_def z_def a_def [symmetric] .
qed

lemma decode_u_escape:
  assumes "n < 65536"
  shows "decode_uXXXX (drop 2 (u_escape n) @ r) = Some n"
proof -
  have "n div 4096 mod 16 < 16" "n div 256 mod 16 < 16" "n div 16 mod 16 < 16" "n mod 16 < 16"
    by simp_all
  then show ?thesis
    unfolding u_escape_def decode_uXXXX_def
    by (simp add: hex_value_hex_digit hex_recompose [OF assms] del: mod_less)
qed

lemma str_nat_digits: "list_all is_digit (str_nat n)"
proof (induction n rule: str_nat.induct)
  case (1 n)
  show ?case
  proof (cases "n < 10")
    case True
    then show ?thesis by (subst str_nat.simps) (simp add: is_digit_def)
  next
    case False
    have "n mod 10 < 10" by simp
    then have "is_digit (48 + n mod 10)" unfolding is_digit_def by linarith
    with False 1 show ?thesis by (subst str_nat.simps) simp
  qed
qed

lemma digits_value_str_nat: "digits_value (str_nat n) = n"
proof (induction n rule: str_nat.induct)
  case (1 n)
  show ?case
  proof (cases "n < 10")
    case True
    then show ?thesis by (subst str_nat.simps) (simp add: digits_value_def)
  next
    case False
    with 1 show ?thesis
      by (subst str_nat.simps) (simp add: digits_value_snoc)
  qed
qed

lemma str_nat_hd: "0 < n \<Longrightarrow> 49 \<le> hd (str_nat n) \<and> hd (str_nat n) \<le> 57"
proof (induction n rule: str_nat.induct)
  case (1 n)
  show ?case
  proof (cases "n < 10")
    case True
    with 1(2) have "str_nat n = [48 + n]" by (subst str_nat.simps) simp
    with True 1(2) show ?thesis by simp
  next
    case False
    then have "0 < n div 10" by simp
    with False 1 have ih: "49 \<le> hd (str_nat (n div 10)) \<and> hd (str_nat (n div 10)) \<le> 57"
      by simp
    from False have "str_nat n = str_nat (n div 10) @ [48 + n mod 10]"
      by (subst str_nat.simps) simp
    with ih show ?thesis by (simp add: str_nat_nonempty)
  qed
qed

lemma filter_all: "list_all P xs \<Longrightarrow> filter P xs = xs"
  by (induction xs) auto

lemma long_from_string_digits:
  assumes "ds \<noteq> []" and "list_all is_digit ds" and "\<not> over_limit ip (length ds)"
  shows "long_from_string ip ds = Return (int (digits_value ds))"
    and "long_from_string ip (45 # ds) = Return (- int (digits_value ds))"
proof -
  obtain c cs where s: "ds = c # cs" using assms(1) by (cases ds) auto
  from assms(2) s have c: "is_digit c" by simp
  then have ns: "\<not> py_isspace c" and np: "c \<noteq> 43" and nm: "c \<noteq> 45"
    by (auto simp: is_digit_def py_isspace_def)
  have tw: "takeWhile (\<lambda>c. is_digit c \<or> c = 95) ds = ds"
    and dw: "dropWhile (\<lambda>c. is_digit c \<or> c = 95) ds = []"
    using digit_or_underscore [OF assms(2)] by (simp_all only: takeWhile_all dropWhile_all)
  have g: "grouped ds" using assms(1,2) by (rule grouped_digits)
  have n: "length (filter is_digit ds) = length ds"
    using assms(2) by (simp only: filter_all)
  have sp: "\<not> py_isspace 45" by (simp add: py_isspace_def)
  have d1: "dropWhile py_isspace ds = ds" using ns s by simp
  have t1: "take 1 ds \<noteq> [43]" "take 1 ds \<noteq> [45]" using s np nm by simp_all
  show "long_from_string ip ds = Return (int (digits_value ds))"
    unfolding long_from_string_def Let_def d1 using t1 assms(3) by (simp add: tw dw g n)
  have d2: "dropWhile py_isspace (45 # ds) = 45 # ds" using sp by simp
  show "long_from_string ip (45 # ds) = Return (- int (digits_value ds))"
    unfolding long_from_string_def Let_def d2 using assms(3) by (simp add: tw dw g n)
qed

lemma long_from_string_str_int:
  assumes "\<not> exceeds_limit ip i"
  shows "long_from_string ip (str_int i) = Return i"
proof (cases "i < 0")
  case True
  then have "nat \<bar>i\<bar> = nat (- i)" by simp
  then have "\<not> over_limit ip (length (str_nat (nat (- i))))"
    using assms by (simp add: exceeds_limit_def digit_count_def)
  from long_from_string_digits(2) [OF str_nat_nonempty str_nat_digits this] True
  show ?thesis by (simp add: str_int_def digits_value_str_nat)
next
  case False
  then have "nat \<bar>i\<bar> = nat i" by simp
  then have "\<not> over_limit ip (length (str_nat (nat i)))"
    using assms by (simp add: exceeds_limit_def digit_count_def)
  from long_from_string_digits(1) [OF str_nat_nonempty str_nat_digits this] False
  show ?thesis by (simp add: str_int_def digits_value_str_nat)
qed

lemma match_frac_none: "c \<noteq> 46 \<Longrightarrow> match_frac (c # r) = ([], c # r)"
  by (simp add: match_frac_def split: list.splits)

lemma match_exp_none: "c \<noteq> 101 \<Longrightarrow> c \<noteq> 69 \<Longrightarrow> match_exp (c # r) = ([], c # r)"
  by (simp add: match_exp_def)

lemma match_number_digits:
  assumes "list_all is_digit t" and "is_digit h" and "h = 48 \<longrightarrow> t = []"
    and "\<not> is_digit c" and "c \<noteq> 46" and "c \<noteq> 101" and "c \<noteq> 69"
  shows "match_number (h # t @ c # r) = Some (h # t, [], [], c # r)"
    and "match_number (45 # h # t @ c # r) = Some (45 # h # t, [], [], c # r)"
proof -
  have h: "h \<noteq> 45" "h \<noteq> 48 \<longrightarrow> 49 \<le> h \<and> h \<le> 57"
    using assms(2) by (auto simp: is_digit_def)
  have tw: "takeWhile is_digit (t @ c # r) = t" and dw: "dropWhile is_digit (t @ c # r) = c # r"
    using assms(1,4) by (simp_all add: takeWhile_digits dropWhile_digits)
  show "match_number (h # t @ c # r) = Some (h # t, [], [], c # r)"
    using h assms(3,5,6,7)
    by (auto simp: match_number_def Let_def tw dw match_frac_none match_exp_none)
  show "match_number (45 # h # t @ c # r) = Some (45 # h # t, [], [], c # r)"
    using h assms(3,5,6,7)
    by (auto simp: match_number_def Let_def tw dw match_frac_none match_exp_none)
qed

lemma str_nat_shape:
  "\<exists>h t. str_nat n = h # t \<and> is_digit h \<and> list_all is_digit t \<and> (h = 48 \<longrightarrow> t = [])"
proof -
  obtain h t where s: "str_nat n = h # t"
    using str_nat_nonempty [of n] by (cases "str_nat n") auto
  have d: "is_digit h" "list_all is_digit t"
    using str_nat_digits [of n] s by simp_all
  have "t = []" if "h = 48"
  proof (cases "n = 0")
    case True
    with s str_nat_zero show ?thesis by simp
  next
    case False
    then have "49 \<le> hd (str_nat n)" using str_nat_hd [of n] by simp
    with s that show ?thesis by simp
  qed
  with s d show ?thesis by blast
qed

lemma scan_once_int:
  assumes "\<not> is_digit c" and "c \<noteq> 46" and "c \<noteq> 101" and "c \<noteq> 69"
    and "\<not> exceeds_limit ip i"
  shows "scan_once ip d (str_int i @ c # r) = Return (PInt i, c # r)"
proof -
  obtain h t where s: "str_nat (nat \<bar>i\<bar>) = h # t" and hd: "is_digit h"
    and tl: "list_all is_digit t" and z: "h = 48 \<longrightarrow> t = []"
    using str_nat_shape by blast
  note mn = match_number_digits [OF tl hd z assms(1-4), of r]
  have h: "48 \<le> h" "h \<le> 57" using hd by (simp_all add: is_digit_def)
  show ?thesis
  proof (cases "i < 0")
    case False
    then have e: "str_int i = h # t" using s by (simp add: str_int_def)
    have l: "long_from_string ip (h # t) = Return i"
      using long_from_string_str_int [OF assms(5)] e by simp
    show ?thesis
      unfolding e using h mn(1) l
      by (simp add: ustr_def)
  next
    case True
    then have e: "str_int i = 45 # h # t" using s by (simp add: str_int_def)
    have l: "long_from_string ip (45 # h # t) = Return i"
      using long_from_string_str_int [OF assms(5)] e by simp
    show ?thesis
      unfolding e using h mn(2) l
      by (simp add: ustr_def)
  qed
qed

subsection \<open>The decoder reads a key that the encoder wrote\<close>

lemma u_escape_shape: "\<exists>a b c d. u_escape n = [92, 117, a, b, c, d]"
  by (simp add: u_escape_def)

lemma scanstring_u_escape:
  assumes "n < 65536"
  shows "scanstring (u_escape n @ t) =
     (if high_surrogate n \<and> take 2 t = [92, 117] then
        (case decode_uXXXX (drop 2 t) of
           None \<Rightarrow> Raise JSONDecodeError
         | Some u2 \<Rightarrow>
             if low_surrogate u2 then
               prepend (0x10000 + ((n - 0xD800) * 1024 + (u2 - 0xDC00))) (scanstring (drop 6 t))
             else prepend n (scanstring t))
      else prepend n (scanstring t))"
proof -
  obtain a b c d where u: "u_escape n = [92, 117, a, b, c, d]"
    using u_escape_shape by blast
  have dec: "decode_uXXXX (a # b # c # d # t) = Some n"
    using decode_u_escape [OF assms, of t] u by simp
  show ?thesis
    unfolding u by (simp add: dec high_surrogate_def low_surrogate_def split: option.splits)
qed

lemma drop2_u_escape: "drop 2 (u_escape n @ t) = drop 2 (u_escape n) @ t"
  by (simp add: u_escape_def)

lemma take2_u_escape: "take 2 (u_escape n @ t) = [92, 117]"
  by (simp add: u_escape_def)

lemma high_part:
  assumes "65536 \<le> c" and "c < 0x110000"
  shows "high_surrogate (0xD800 + (c - 0x10000) div 1024 mod 1024)"
    and "low_surrogate (0xDC00 + (c - 0x10000) mod 1024)"
    and "0xD800 + (c - 0x10000) div 1024 mod 1024 < 65536"
    and "0xDC00 + (c - 0x10000) mod 1024 < 65536"
    and "0x10000 + ((0xD800 + (c - 0x10000) div 1024 mod 1024 - 0xD800) * 1024
           + (0xDC00 + (c - 0x10000) mod 1024 - 0xDC00)) = c"
proof -
  define m where "m = c - 0x10000"
  have m: "m < 1048576" "c = 65536 + m" using assms by (simp_all add: m_def)
  have q: "m div 1024 < 1024" using m(1) by simp
  then have qm: "m div 1024 mod 1024 = m div 1024" by simp
  have r: "m mod 1024 < 1024" by simp
  have dm: "m div 1024 * 1024 + m mod 1024 = m" by simp
  show "high_surrogate (0xD800 + (c - 0x10000) div 1024 mod 1024)"
    unfolding m_def [symmetric] qm high_surrogate_def using q by simp
  show "low_surrogate (0xDC00 + (c - 0x10000) mod 1024)"
    unfolding m_def [symmetric] low_surrogate_def using r by simp
  show "0xD800 + (c - 0x10000) div 1024 mod 1024 < 65536"
    unfolding m_def [symmetric] qm using q by simp
  show "0xDC00 + (c - 0x10000) mod 1024 < 65536"
    unfolding m_def [symmetric] using r by simp
  show "0x10000 + ((0xD800 + (c - 0x10000) div 1024 mod 1024 - 0xD800) * 1024
           + (0xDC00 + (c - 0x10000) mod 1024 - 0xDC00)) = c"
    unfolding m_def [symmetric] qm using dm m(2) by simp
qed

lemma high_not_low: "high_surrogate u \<Longrightarrow> \<not> low_surrogate u"
  by (simp add: high_surrogate_def low_surrogate_def)

lemma escape_lookahead:
  assumes "d < 0x110000" and "\<not> low_surrogate d" and "take 2 (escape_char d @ t) = [92, 117]"
  shows "\<exists>u. decode_uXXXX (drop 2 (escape_char d @ t)) = Some u \<and> \<not> low_surrogate u"
proof (cases "d < 65536")
  case True
  show ?thesis
  proof (cases "escape_char d = u_escape d")
    case True
    with \<open>d < 65536\<close> assms(2) show ?thesis
      by (simp add: drop2_u_escape decode_u_escape)
  next
    case False
    with True assms(3) show ?thesis
      by (auto simp: escape_char_def split: if_splits)
  qed
next
  case False
  then have ge: "65536 \<le> d" by simp
  let ?hi = "0xD800 + (d - 0x10000) div 1024 mod 1024"
  let ?lo = "0xDC00 + (d - 0x10000) mod 1024"
  have e: "escape_char d = u_escape ?hi @ u_escape ?lo"
    using ge by (simp add: escape_char_def)
  have "decode_uXXXX (drop 2 (u_escape ?hi) @ (u_escape ?lo @ t)) = Some ?hi"
    by (rule decode_u_escape) (rule high_part(3) [OF ge assms(1)])
  moreover have "drop 2 (escape_char d @ t) = drop 2 (u_escape ?hi) @ (u_escape ?lo @ t)"
    unfolding e by (simp only: append_assoc drop2_u_escape)
  ultimately have "decode_uXXXX (drop 2 (escape_char d @ t)) = Some ?hi"
    by (simp only:)
  with high_not_low [OF high_part(1) [OF ge assms(1)]] show ?thesis
    by blast
qed

lemma no_surrogate_pair_tl: "no_surrogate_pair (c # k) \<Longrightarrow> no_surrogate_pair k"
  by (cases k) simp_all

lemma drop6_u_escape: "drop 6 (u_escape n @ t) = t"
  by (simp add: u_escape_def)

lemma scanstring_escaped:
  "code_points k \<Longrightarrow> no_surrogate_pair k
     \<Longrightarrow> scanstring (concat (map escape_char k) @ 34 # r) = Return (k, r)"
proof (induction k)
  case Nil
  show ?case by simp
next
  case (Cons c k)
  let ?tail = "concat (map escape_char k) @ 34 # r"
  from Cons.prems have c: "c < 0x110000" and cp: "code_points k"
    by (simp_all add: code_points_def)
  have ih: "scanstring ?tail = Return (k, r)"
    using Cons.IH [OF cp no_surrogate_pair_tl [OF Cons.prems(2)]] .
  have look: "\<exists>u. decode_uXXXX (drop 2 ?tail) = Some u \<and> \<not> low_surrogate u"
    if hs: "high_surrogate c" and t2: "take 2 ?tail = [92, 117]"
  proof (cases k)
    case Nil
    with t2 show ?thesis by simp
  next
    case (Cons d k')
    from Cons cp have d: "d < 0x110000" by (simp add: code_points_def)
    from Cons hs Cons.prems(2) \<open>no_surrogate_pair (c # k)\<close> have nl: "\<not> low_surrogate d" by simp
    have tl: "?tail = escape_char d @ (concat (map escape_char k') @ 34 # r)"
      using Cons by simp
    show ?thesis
      using escape_lookahead [OF d nl, of "concat (map escape_char k') @ 34 # r"] t2
      unfolding tl by blast
  qed
  have goal: "scanstring (escape_char c @ ?tail) = Return (c # k, r)"
  proof (cases "c < 65536")
    case small: True
    show ?thesis
    proof (cases "escape_char c = u_escape c")
      case True
      show ?thesis
      proof (cases "high_surrogate c \<and> take 2 ?tail = [92, 117]")
        case True
        then obtain u where "decode_uXXXX (drop 2 ?tail) = Some u" "\<not> low_surrogate u"
          using look by blast
        with True show ?thesis
          unfolding \<open>escape_char c = u_escape c\<close> scanstring_u_escape [OF small]
          by (simp add: ih prepend_def)
      next
        case False
        then show ?thesis
          unfolding \<open>escape_char c = u_escape c\<close> scanstring_u_escape [OF small]
          by (auto simp: ih prepend_def)
      qed
    next
      case False
      with small show ?thesis
        by (auto simp: escape_char_def ih prepend_def backslash_def split: if_splits)
    qed
  next
    case False
    then have ge: "65536 \<le> c" by simp
    let ?hi = "0xD800 + (c - 0x10000) div 1024 mod 1024"
    let ?lo = "0xDC00 + (c - 0x10000) mod 1024"
    note hp = high_part [OF ge c]
    have e: "escape_char c @ ?tail = u_escape ?hi @ (u_escape ?lo @ ?tail)"
      using ge by (simp add: escape_char_def)
    have d: "decode_uXXXX (drop 2 (u_escape ?lo @ ?tail)) = Some ?lo"
      unfolding drop2_u_escape by (rule decode_u_escape [OF hp(4)])
    have t2: "take 2 (u_escape ?lo @ ?tail) = [92, 117]"
      by (rule take2_u_escape)
    have d6: "drop 6 (u_escape ?lo @ ?tail) = ?tail"
      by (rule drop6_u_escape)
    show ?thesis
      unfolding e scanstring_u_escape [OF hp(3)] t2 d d6 ih
      using hp(1,2,5) by (simp add: prepend_def)
  qed
  then show ?case by simp
qed

subsection \<open>The decoder reads the object that the encoder wrote\<close>

lemma dump_items_Cons:
  "dump_items ((k, v) # rest) =
     34 # concat (map escape_char k) @ 34 # 58 # 32 # str_int v
       @ (if rest = [] then [] else [44, 10, 32, 32] @ dump_items rest)"
  by (cases rest) (auto simp: encode_basestring_ascii_def ustr_def)

lemma str_int_not_ws: "\<exists>h t. str_int v = h # t \<and> \<not> ws h"
proof -
  obtain h t where s: "str_nat (nat \<bar>v\<bar>) = h # t" and hd: "is_digit h"
    using str_nat_shape by blast
  then have "\<not> ws h" by (auto simp: ws_def is_digit_def)
  moreover have "\<not> ws 45" by (simp add: ws_def)
  ultimately show ?thesis using s by (auto simp: str_int_def)
qed

lemma skip_ws_str_int: "skip_ws (32 # str_int v @ x) = str_int v @ x"
proof -
  obtain h t where "str_int v = h # t" "\<not> ws h" using str_int_not_ws by blast
  then show ?thesis by (simp add: skip_ws_def ws_def)
qed

lemma skip_ws_simps:
  "skip_ws (58 # s) = 58 # s"
  "skip_ws (44 # s) = 44 # s"
  "skip_ws (34 # s) = 34 # s"
  "skip_ws (125 # s) = 125 # s"
  "skip_ws (10 # s) = skip_ws s"
  "skip_ws (32 # s) = skip_ws s"
  by (simp_all add: skip_ws_def ws_def)

lemma parse_members_last:
  assumes "scanstring s = Return (key, 58 # s2)"
    and "scan_once ip d (skip_ws s2) = Return (v, 10 # 125 # r)"
  shows "parse_members ip d s = Return ([(PStr key, v)], r)"
  by (subst parse_members.simps)
    (simp add: assms skip_ws_simps
      del: parse_members.simps scan_once.simps parse_elements.simps)

lemma parse_members_more:
  assumes "scanstring s = Return (key, 58 # s2)"
    and "scan_once ip d (skip_ws s2) = Return (v, 44 # 10 # 32 # 32 # 34 # s5)"
    and "length s5 < length s"
    and "parse_members ip d s5 = Return (pairs, r)"
  shows "parse_members ip d s = Return ((PStr key, v) # pairs, r)"
  by (subst parse_members.simps)
    (simp add: assms skip_ws_simps
      del: parse_members.simps scan_once.simps parse_elements.simps)

lemma parse_members_dump:
  "l \<noteq> [] \<Longrightarrow> list_all (\<lambda>(k, v). key_ok k) l \<Longrightarrow>
   list_all (\<lambda>(k, v). \<not> exceeds_limit ip v) l \<Longrightarrow>
     \<exists>t. dump_items l = 34 # t
       \<and> parse_members ip d (t @ 10 # 125 # r)
           = Return (map (\<lambda>(k, v). (PStr k, PInt v)) l, r)"
proof (induction l)
  case Nil
  then show ?case by simp
next
  case (Cons kv rest)
  obtain k v where kv: "kv = (k, v)" by (cases kv)
  from Cons.prems kv have ok: "code_points k" "no_surrogate_pair k"
    and okr: "list_all (\<lambda>(k, v). key_ok k) rest"
    and lim: "\<not> exceeds_limit ip v"
    and limr: "list_all (\<lambda>(k, v). \<not> exceeds_limit ip v) rest"
    by (simp_all add: key_ok_def)
  define x where "x = (if rest = [] then [] else [44, 10, 32, 32] @ dump_items rest) @ 10 # 125 # r"
  define t where "t = concat (map escape_char k) @ 34 # 58 # 32 # str_int v
       @ (if rest = [] then [] else [44, 10, 32, 32] @ dump_items rest)"
  define s where "s = t @ 10 # 125 # r"
  have d: "dump_items (kv # rest) = 34 # t"
    unfolding kv dump_items_Cons t_def by simp
  have app: "s = concat (map escape_char k) @ 34 # (58 # 32 # str_int v @ x)"
    unfolding s_def t_def x_def by simp
  have sc: "scanstring s = Return (k, 58 # 32 # str_int v @ x)"
    unfolding app by (rule scanstring_escaped [OF ok])
  have sw: "skip_ws (32 # str_int v @ x) = str_int v @ x"
    by (rule skip_ws_str_int)
  show ?case
  proof (cases "rest = []")
    case True
    then have x: "x = 10 # 125 # r" by (simp add: x_def)
    have so: "scan_once ip d (skip_ws (32 # str_int v @ x)) = Return (PInt v, 10 # 125 # r)"
      unfolding sw unfolding x by (rule scan_once_int) (simp_all add: is_digit_def lim)
    have "parse_members ip d s = Return ([(PStr k, PInt v)], r)"
      using sc so by (rule parse_members_last)
    with d True kv show ?thesis unfolding s_def by simp
  next
    case False
    from Cons.IH [OF False okr limr] obtain t' where
      dr: "dump_items rest = 34 # t'" and
      pr: "parse_members ip d (t' @ 10 # 125 # r) = Return (map (\<lambda>(k, v). (PStr k, PInt v)) rest, r)"
      by blast
    have x: "x = 44 # 10 # 32 # 32 # 34 # (t' @ 10 # 125 # r)"
      using False dr by (simp add: x_def)
    have so: "scan_once ip d (skip_ws (32 # str_int v @ x))
        = Return (PInt v, 44 # 10 # 32 # 32 # 34 # (t' @ 10 # 125 # r))"
      unfolding sw unfolding x by (rule scan_once_int) (simp_all add: is_digit_def lim)
    have len: "length (t' @ 10 # 125 # r) < length s"
      unfolding app x by simp
    have "parse_members ip d s
        = Return ((PStr k, PInt v) # map (\<lambda>(k, v). (PStr k, PInt v)) rest, r)"
      using sc so len pr by (rule parse_members_more)
    with d kv show ?thesis unfolding s_def by simp
  qed
qed

lemma update_fresh: "k \<notin> fst ` set al \<Longrightarrow> AList.update k v al = al @ [(k, v)]"
  by (induction al) auto

lemma foldl_update_distinct:
  "distinct (map fst (acc @ ps))
     \<Longrightarrow> foldl (\<lambda>d (k, v). AList.update k v d) acc ps = acc @ ps"
proof (induction ps arbitrary: acc)
  case Nil
  show ?case by simp
next
  case (Cons p ps)
  obtain k v where p: "p = (k, v)" by (cases p)
  from Cons.prems p have fresh: "k \<notin> fst ` set acc" by auto
  from Cons.prems have "distinct (map fst ((acc @ [p]) @ ps))" by simp
  from Cons.IH [OF this] show ?case
    by (simp add: p update_fresh [OF fresh])
qed

lemma dict_of_distinct:
  assumes "distinct (map fst l)"
  shows "dict_of (map (\<lambda>(k, v). (PStr k, PInt v)) l) = map (\<lambda>(k, v). (PStr k, PInt v)) l"
proof -
  have m: "map fst (map (\<lambda>(k, v). (PStr k, PInt v)) l) = map PStr (map fst l)"
    by (induction l) auto
  have "distinct (map PStr (map fst l))"
    using assms by (simp add: distinct_map inj_on_def)
  then have "distinct (map fst ([] @ map (\<lambda>(k, v). (PStr k, PInt v)) l))"
    unfolding append_Nil m .
  from foldl_update_distinct [OF this] show ?thesis
    by (simp add: dict_of_def)
qed

lemma clean_items_ints:
  "distinct (map fst (acc @ l))
     \<Longrightarrow> clean_items ip (map (\<lambda>(k, v). (PStr k, PInt v)) l) acc s = (Return (acc @ l), s)"
proof (induction l arbitrary: acc)
  case Nil
  show ?case by simp
next
  case (Cons p l)
  obtain k v where p: "p = (k, v)" by (cases p)
  from Cons.prems p have fresh: "k \<notin> fst ` set acc" by auto
  from Cons.prems have "distinct (map fst ((acc @ [p]) @ l))" by simp
  from Cons.IH [OF this] show ?case
    by (simp add: p update_fresh [OF fresh])
qed

lemma json_loads_dumps:
  assumes "0 < recursion_limit ip" and "list_all (\<lambda>(k, v). key_ok k) l"
    and "distinct (map fst l)" and "list_all (\<lambda>(k, v). \<not> exceeds_limit ip v) l"
  shows "json_loads ip (json_dumps l) = Return (PDict (map (\<lambda>(k, v). (PStr k, PInt v)) l))"
proof -
  obtain d where d: "recursion_limit ip = Suc d"
    using assms(1) by (cases "recursion_limit ip") auto
  show ?thesis
  proof (cases "l = []")
    case True
    then show ?thesis
      by (simp add: json_loads_def json_dumps_def ustr_def d skip_ws_def ws_def)
  next
    case False
    from parse_members_dump [OF False assms(2,4), of d "[]"] obtain t where
      t: "dump_items l = 34 # t" and
      p: "parse_members ip d (t @ [10, 125])
            = Return (map (\<lambda>(k, v). (PStr k, PInt v)) l, [])"
      by auto
    have j: "json_dumps l = 123 # 10 # 32 # 32 # 34 # (t @ [10, 125])"
      using False t by (simp add: json_dumps_def)
    have so: "scan_once ip (Suc d) (123 # 10 # 32 # 32 # 34 # (t @ [10, 125]))
        = Return (PDict (map (\<lambda>(k, v). (PStr k, PInt v)) l), [])"
      by (subst scan_once.simps)
        (simp add: skip_ws_simps p dict_of_distinct [OF assms(3)]
          del: parse_members.simps scan_once.simps parse_elements.simps)
    show ?thesis
      unfolding json_loads_def j d
      by (simp add: skip_ws_def ws_def so
          del: parse_members.simps scan_once.simps parse_elements.simps)
  qed
qed

subsection \<open>The encoder's text\<close>

lemma dump_items_more:
  "rest \<noteq> [] \<Longrightarrow>
     dump_items ((k, v) # rest)
       = encode_basestring_ascii k @ ustr '': '' @ str_int v @ [44, 10, 32, 32] @ dump_items rest"
  by (cases rest) auto

lemma iterencode_dict_converts:
  "l \<noteq> [] \<Longrightarrow> list_all (\<lambda>(k, v). \<not> exceeds_limit ip v) l \<Longrightarrow>
     iterencode_dict ip first l out
       = (Return (), (if first then out else out @ [44, 10, 32, 32]) @ dump_items l)"
proof (induction l arbitrary: first out)
  case Nil
  then show ?case by simp
next
  case (Cons kv rest)
  obtain k v where kv: "kv = (k, v)" by (cases kv)
  from Cons.prems kv have lim: "\<not> exceeds_limit ip v"
    and limr: "list_all (\<lambda>(k, v). \<not> exceeds_limit ip v) rest"
    by simp_all
  define out1 where
    "out1 = (if first then out else out @ [44, 10, 32, 32]) @ encode_basestring_ascii k @ ustr '': ''"
  have step: "iterencode_dict ip first (kv # rest) out
      = iterencode_dict ip False rest (out1 @ str_int v)"
    using lim by (simp add: kv int_str_def out1_def Let_def)
  show ?case
  proof (cases "rest = []")
    case True
    then show ?thesis
      unfolding step by (simp add: kv out1_def)
  next
    case False
    show ?thesis
      unfolding step unfolding Cons.IH [OF False limr] unfolding kv dump_items_more [OF False]
      by (simp add: out1_def)
  qed
qed

lemma iterencode_dict_returns:
  "fst (iterencode_dict ip first l out) = Return ()
     \<Longrightarrow> list_all (\<lambda>(k, v). \<not> exceeds_limit ip v) l"
proof (induction l arbitrary: first out)
  case Nil
  show ?case by simp
next
  case (Cons kv rest)
  obtain k v where kv: "kv = (k, v)" by (cases kv)
  from Cons.prems kv have lim: "\<not> exceeds_limit ip v"
    by (auto simp: int_str_def Let_def split: if_splits)
  with Cons.prems kv have "\<exists>o'. fst (iterencode_dict ip False rest o') = Return ()"
    by (auto simp: int_str_def Let_def)
  then have "list_all (\<lambda>(k, v). \<not> exceeds_limit ip v) rest"
    using Cons.IH by blast
  with lim kv show ?case by simp
qed

lemma json_dump_converts:
  "list_all (\<lambda>(k, v). \<not> exceeds_limit ip v) d \<Longrightarrow> json_dump ip d = (Return (), json_dumps d)"
  by (simp add: json_dump_def json_dumps_def iterencode_dict_converts)

lemma json_dump_returns:
  assumes "fst (json_dump ip d) = Return ()"
  shows "list_all (\<lambda>(k, v). \<not> exceeds_limit ip v) d"
proof (cases "d = []")
  case True
  then show ?thesis by simp
next
  case False
  with assms have "fst (iterencode_dict ip True d [123, 10, 32, 32]) = Return ()"
    by (auto simp: json_dump_def split: prod.splits result.splits)
  then show ?thesis by (rule iterencode_dict_returns)
qed

lemma save_data_returns:
  assumes "fst (save_data ip (Some path) s) = Return ()"
  shows "list_all (\<lambda>(k, v). \<not> exceeds_limit ip v) (stock_data s)"
    and "files (snd (save_data ip (Some path) s)) path = Content (json_dumps (stock_data s))"
proof -
  from assms have w: "writable s path" and j: "fst (json_dump ip (stock_data s)) = Return ()"
    by (auto simp: save_data_def save_body_def split: if_splits prod.splits result.splits)
  from j show l: "list_all (\<lambda>(k, v). \<not> exceeds_limit ip v) (stock_data s)"
    by (rule json_dump_returns)
  show "files (snd (save_data ip (Some path) s)) path = Content (json_dumps (stock_data s))"
    using w by (simp add: save_data_def save_body_def json_dump_converts [OF l] logging_def)
qed

text \<open>
  Claim C6, as the code has it.  The encoder writes a code point beyond \<^verbatim>\<open>0xFFFF\<close> as
  the escapes of its two surrogates, and the decoder joins two such escapes into one code
  point.  The key made of the two code points \<^verbatim>\<open>0xD83D\<close> and \<^verbatim>\<open>0xDE00\<close>, which
  \<^verbatim>\<open>add_item\<close> accepts, is written as \<^verbatim>\<open>"\ud83d\ude00"\<close> and loaded as the one code
  point \<^verbatim>\<open>0x1F600\<close>: the ledger that comes back has another key.
\<close>

theorem surrogate_key_counterexample:
  "fst (add_item sample_interp (PStr [0xD83D, 0xDE00]) (PInt 1) None (ustr ''now'') module_start)
     = Return [ustr ''now: Added 1 of '' @ [0xD83D, 0xDE00]]
   \<and> stock_data (snd (add_item sample_interp (PStr [0xD83D, 0xDE00]) (PInt 1) None (ustr ''now'')
        module_start))
     = [([0xD83D, 0xDE00], 1)]
   \<and> nonneg_ledger [([0xD83D, 0xDE00], 1)]
   \<and> fst (save_data sample_interp None
        (snd (add_item sample_interp (PStr [0xD83D, 0xDE00]) (PInt 1) None (ustr ''now'')
           module_start)))
     = Return ()
   \<and> stock_data (snd (load_data sample_interp None (snd (save_data sample_interp None
        (snd (add_item sample_interp (PStr [0xD83D, 0xDE00]) (PInt 1) None (ustr ''now'')
           module_start))))))
     = [([0x1F600], 1)]"
  by (simp add: add_item_def dict_get_def nonneg_ledger_def json_eval load_data_def load_body_def
      read_text_def logging_def save_data_def save_body_def json_dump_def
      encode_basestring_ascii_def int_str_def exceeds_limit_def digit_count_def
      escape_char_def u_escape_def hex_digit_def str_int_def str_nat.simps
      sample_interp_def module_start_def Let_def)

text \<open>
  Claim C6, amended.  When \<^verbatim>\<open>save_data\<close> returns normally, the keys of the ledger are
  distinct (it is a dictionary) and hold no high surrogate followed by a low one, and
  the decoder may open one container, then \<^verbatim>\<open>load_data\<close> from the same path returns
  normally with the ledger that was saved: the same keys in the same order, each with
  its quantity, whatever its sign.  So does \<^verbatim>\<open>load_data\<close> in any later state in which
  the file is still what \<^verbatim>\<open>save_data\<close> wrote.
\<close>

theorem save_then_load_restores:
  assumes "fst (save_data ip (Some path) s) = Return ()"
    and "distinct (map fst (stock_data s))"
    and "list_all (\<lambda>(k, v). key_ok k) (stock_data s)"
    and "0 < recursion_limit ip"
  shows "fst (load_data ip (Some path) (snd (save_data ip (Some path) s))) = Return ()
       \<and> stock_data (snd (load_data ip (Some path) (snd (save_data ip (Some path) s))))
           = stock_data s
       \<and> (\<forall>s'. files s' path = files (snd (save_data ip (Some path) s)) path
             \<longrightarrow> stock_data (snd (load_data ip (Some path) s')) = stock_data s)"
proof -
  note f = save_data_returns(2) [OF assms(1)]
  have l: "json_loads ip (json_dumps (stock_data s))
      = Return (PDict (map (\<lambda>(k, v). (PStr k, PInt v)) (stock_data s)))"
    using assms(4,3,2) save_data_returns(1) [OF assms(1)] by (rule json_loads_dumps)
  have c: "clean_items ip (map (\<lambda>(k, v). (PStr k, PInt v)) (stock_data s)) [] s'
      = (Return (stock_data s), s')" for s'
    using clean_items_ints [of "[]" "stock_data s" ip s'] assms(2) by simp
  have r: "stock_data (snd (load_data ip (Some path) s')) = stock_data s
      \<and> fst (load_data ip (Some path) s') = Return ()"
    if "files s' path = Content (json_dumps (stock_data s))" for s'
    using that
    by (simp add: load_data_def load_body_def read_text_def l c logging_def
        del: clean_items.simps)
  show ?thesis
    using r f by simp
qed

theorem save_then_load_restores_witness:
  "fst (save_data sample_interp None
      (module_start\<lparr>stock_data := [(ustr ''apple'', 7), (ustr ''banana'', 12)]\<rparr>))
     = Return ()
   \<and> stock_data (snd (load_data sample_interp (Some (ustr ''inventory.json''))
        (snd (save_data sample_interp (Some (ustr ''inventory.json''))
           (module_start\<lparr>stock_data := [(ustr ''apple'', 7), (ustr ''banana'', 12)]\<rparr>)))))
     = [(ustr ''apple'', 7), (ustr ''banana'', 12)]"
proof -
  let ?s = "module_start\<lparr>stock_data := [(ustr ''apple'', 7), (ustr ''banana'', 12)]\<rparr>"
  have n: "\<not> exceeds_limit sample_interp 7" "\<not> exceeds_limit sample_interp 12"
    by (simp_all add: exceeds_limit_def over_limit_def digit_count_def str_nat.simps
        sample_interp_def)
  then have j: "json_dump sample_interp [(ustr ''apple'', 7), (ustr ''banana'', 12)]
      = (Return (), json_dumps [(ustr ''apple'', 7), (ustr ''banana'', 12)])"
    by (simp add: json_dump_converts)
  have a: "fst (save_data sample_interp (Some (ustr ''inventory.json'')) ?s) = Return ()"
    and a': "fst (save_data sample_interp None ?s) = Return ()"
    by (simp_all add: save_data_def save_body_def j module_start_def Let_def)
  have b: "distinct (map fst (stock_data ?s))"
    by (simp add: ustr_def)
  have c: "list_all (\<lambda>(k, v). key_ok k) (stock_data ?s)"
    by (simp add: key_ok_def code_points_def ustr_def high_surrogate_def low_surrogate_def)
  have d: "0 < recursion_limit sample_interp"
    by (simp add: sample_interp_def)
  from save_then_load_restores [OF a b c d] a' show ?thesis
    by simp
qed

section \<open>The decoder's loops advance\<close>

text \<open>
  Whatever \<^verbatim>\<open>scanstring\<close>, \<^verbatim>\<open>scan_once\<close> and the two loops read, they leave a
  shorter text.  So the test on the length in \<^verbatim>\<open>parse_members\<close> and
  \<^verbatim>\<open>parse_elements\<close> always succeeds: the two functions satisfy the equations of
  the loops as the decoder has them, without that test.
\<close>

lemma prepend_Return:
  "prepend c x = Return (t, r) \<Longrightarrow> \<exists>t'. x = Return (t', r)"
  by (auto simp: prepend_def split: result.splits)

lemma scanstring_shorter: "scanstring s = Return (t, r) \<Longrightarrow> length r < length s"
proof (induction s arbitrary: t r rule: scanstring.induct)
  case 1
  then show ?case by simp
next
  case (2 c cs)
  show ?case
  proof (cases "c = 34")
    case True
    with "2.prems" show ?thesis by simp
  next
    case n34: False
    show ?thesis
    proof (cases "c = 92")
      case False
      with n34 "2.prems" obtain t' where "c \<ge> 32" "scanstring cs = Return (t', r)"
        by (auto split: if_splits dest!: prepend_Return)
      with "2.IH"(5) [OF n34 False] show ?thesis by fastforce
    next
      case True
      from True n34 "2.prems" obtain esc cs1 where cs: "cs = esc # cs1"
        by (cases cs) auto
      show ?thesis
      proof (cases "esc = 117")
        case False
        with True n34 cs "2.prems" obtain ch t' where
          "backslash esc = Some ch" "scanstring cs1 = Return (t', r)"
          by (auto split: option.splits dest!: prepend_Return)
        with "2.IH"(1) [OF n34 True cs False] cs show ?thesis by fastforce
      next
        case u: True
        from True n34 cs u "2.prems" obtain uni where d: "decode_uXXXX cs1 = Some uni"
          by (auto split: option.splits)
        let ?pair = "0xD800 \<le> uni \<and> uni \<le> 0xDBFF \<and> take 2 (drop 4 cs1) = [92, 117]"
        show ?thesis
        proof (cases ?pair)
          case False
          with True n34 cs u d "2.prems" obtain t' where
            "scanstring (drop 4 cs1) = Return (t', r)"
            by (auto dest!: prepend_Return)
          with "2.IH"(4) [OF n34 True cs _ d False] u cs show ?thesis by fastforce
        next
          case p: True
          with True n34 cs u d "2.prems" obtain uni2 where
            d2: "decode_uXXXX (drop 6 cs1) = Some uni2"
            by (auto split: option.splits)
          show ?thesis
          proof (cases "0xDC00 \<le> uni2 \<and> uni2 \<le> 0xDFFF")
            case l: True
            with True n34 cs u d p d2 "2.prems" obtain t' where
              "scanstring (drop 10 cs1) = Return (t', r)"
              by (auto dest!: prepend_Return)
            with "2.IH"(2) [OF n34 True cs _ d p d2 l] u cs show ?thesis by fastforce
          next
            case l: False
            with True n34 cs u d p d2 "2.prems" obtain t' where
              "scanstring (drop 4 cs1) = Return (t', r)"
              by (auto dest!: prepend_Return)
            with "2.IH"(3) [OF n34 True cs _ d p d2 l] u cs show ?thesis by fastforce
          qed
        qed
      qed
    qed
  qed
qed

lemma skip_ws_le: "length (skip_ws s) \<le> length s"
  by (simp add: skip_ws_def length_dropWhile_le)

lemma skip_ws_Cons_less: "skip_ws s = c # r \<Longrightarrow> length r < length s"
  using skip_ws_le [of s] by simp

lemma match_frac_le: "match_frac s = (f, r) \<Longrightarrow> length r \<le> length s"
  by (auto simp: match_frac_def split: list.splits if_splits
      intro: le_trans [OF length_dropWhile_le])

lemma match_exp_le: "match_exp s = (e, r) \<Longrightarrow> length r \<le> length s"
proof (cases s)
  case Nil
  then show "match_exp s = (e, r) \<Longrightarrow> ?thesis" by (simp add: match_exp_def)
next
  case (Cons c cs)
  assume m: "match_exp s = (e, r)"
  have "length (dropWhile is_digit (drop n cs)) \<le> Suc (length cs)" for n
    using length_dropWhile_le [of is_digit "drop n cs"] by simp
  moreover have "length (dropWhile is_digit cs) \<le> Suc (length cs)"
    using length_dropWhile_le [of is_digit cs] by simp
  ultimately show ?thesis
    using m Cons by (auto simp: match_exp_def Let_def split: if_splits)
qed

lemma match_number_shorter:
  assumes "match_number s = Some (i, f, e, r)"
  shows "length r < length s"
proof -
  define sg :: pystr where "sg = (if take 1 s = [45] then [45] else [])"
  obtain c t where s1: "drop (length sg) s = c # t"
    using assms unfolding match_number_def Let_def sg_def [symmetric]
    by (cases "drop (length sg) s") auto
  have "length (c # t) \<le> length s"
    unfolding s1 [symmetric] by simp
  then have lt: "length t < length s" by simp
  from assms s1 obtain u f' r1 where u: "u = t \<or> u = dropWhile is_digit t"
    and mf: "match_frac u = (f', r1)" and me: "match_exp r1 = (e, r)"
    unfolding match_number_def Let_def sg_def [symmetric]
    by (auto split: if_splits prod.splits)
  from u have "length u \<le> length t"
    using length_dropWhile_le [of is_digit t] by auto
  with match_frac_le [OF mf] match_exp_le [OF me] lt show ?thesis by simp
qed

declare scan_once.simps [simp del] parse_members.simps [simp del] parse_elements.simps [simp del]

lemma take_eq_drop_shorter: "take n s = t \<Longrightarrow> length t = n \<Longrightarrow> 0 < n \<Longrightarrow> length (drop n s) < length s"
  by (cases "n \<le> length s") auto

lemma scan_shorter:
  "\<forall>v r. scan_once ip d s = Return (v, r) \<longrightarrow> length r < length s"
  "\<forall>ps r. parse_members ip d s = Return (ps, r) \<longrightarrow> length r < length s"
  "\<forall>vs r. parse_elements ip d s = Return (vs, r) \<longrightarrow> length r < length s"
proof (induction ip d s and ip d s and ip d s rule: scan_once_parse_members_parse_elements.induct)
  case (1 ip d s)
  show ?case
  proof (intro allI impI)
    fix v r
    assume a: "scan_once ip d s = Return (v, r)"
    then obtain c cs where s: "s = c # cs"
      by (subst (asm) scan_once.simps) (cases s; simp)
    note a' = a [unfolded scan_once.simps [of ip d s], unfolded s list.case]
    consider (str) "c = 34" | (obj) "c \<noteq> 34" "c = 123" | (arr) "c \<noteq> 34" "c \<noteq> 123" "c = 91"
      | (other) "c \<noteq> 34" "c \<noteq> 123" "c \<noteq> 91" by blast
    then show "length r < length s"
    proof cases
      case str
      with a' obtain t where "scanstring cs = Return (t, r)"
        by (auto split: result.splits)
      from scanstring_shorter [OF this] s show ?thesis by simp
    next
      case obj
      with a' obtain d' n r0 where d: "d = Suc d'" and sk: "skip_ws cs = n # r0"
        by (cases d; cases "skip_ws cs") auto
      from skip_ws_Cons_less [OF sk] have l0: "length r0 < length cs" .
      show ?thesis
      proof (cases "n = 125")
        case True
        with a' obj d sk have "r = r0" by simp
        with l0 s show ?thesis by simp
      next
        case False
        with a' obj d sk have n: "n = 34" by (auto split: if_splits)
        with a' obj d sk False obtain ps where "parse_members ip d' r0 = Return (ps, r)"
          by (auto split: result.splits)
        with "1.IH"(1) [OF s obj d sk False n] have "length r < length r0" by blast
        with l0 s show ?thesis by simp
      qed
    next
      case arr
      with a' obtain d' n r0 where d: "d = Suc d'" and sk: "skip_ws cs = n # r0"
        by (cases d; cases "skip_ws cs") auto
      from skip_ws_Cons_less [OF sk] have l0: "length r0 < length cs" .
      show ?thesis
      proof (cases "n = 93")
        case True
        with a' arr d sk have "r = r0" by simp
        with l0 s show ?thesis by simp
      next
        case False
        with a' arr d sk obtain vs where "parse_elements ip d' (n # r0) = Return (vs, r)"
          by (auto split: result.splits)
        with "1.IH"(2) [OF s arr d sk False] have "length r < length (n # r0)" by blast
        with l0 s show ?thesis by simp
      qed
    next
      case other
      have lit: "length (drop n s) < length s" if "take n s = ustr t" "length t = n" "0 < n" for n t
        using that by (intro take_eq_drop_shorter [of n s "ustr t"]) (simp_all add: ustr_def)
      show ?thesis
      proof (cases "match_number s")
        case (Some m)
        obtain i f e r' where m: "m = (i, f, e, r')" by (cases m) auto
        from match_number_shorter [of s i f e r'] Some m have "length r' < length s" by simp
        moreover from a' other Some m have "r = r' \<or> r = drop 4 s \<and> (take 4 s = ustr ''null'' \<or> take 4 s = ustr ''true'')
            \<or> r = drop 5 s \<and> take 5 s = ustr ''false''"
          unfolding s [symmetric]
          by (auto split: if_splits option.splits result.splits)
        ultimately show ?thesis
          using lit [of 4 "''null''"] lit [of 4 "''true''"] lit [of 5 "''false''"] by auto
      next
        case None
        from a' other None have "r = drop 4 s \<and> (take 4 s = ustr ''null'' \<or> take 4 s = ustr ''true'')
            \<or> r = drop 5 s \<and> take 5 s = ustr ''false''
            \<or> r = drop 3 s \<and> take 3 s = ustr ''NaN''
            \<or> r = drop 8 s \<and> take 8 s = ustr ''Infinity''
            \<or> r = drop 9 s \<and> take 9 s = ustr ''-Infinity''"
          unfolding s [symmetric]
          by (auto split: if_splits)
        then show ?thesis
          using lit [of 4 "''null''"] lit [of 4 "''true''"] lit [of 5 "''false''"]
            lit [of 3 "''NaN''"] lit [of 8 "''Infinity''"] lit [of 9 "''-Infinity''"] by auto
      qed
    qed
  qed
next
  case (2 ip d s)
  show ?case
  proof (intro allI impI)
    fix ps r
    assume a: "parse_members ip d s = Return (ps, r)"
    then obtain key s1 where sc: "scanstring s = Return (key, s1)"
      by (subst (asm) parse_members.simps) (auto split: result.splits)
    from scanstring_shorter [OF sc] have l1: "length s1 < length s" .
    from a sc obtain s2 where sk1: "skip_ws s1 = 58 # s2"
      by (subst (asm) parse_members.simps) (auto split: list.splits if_splits)
    from skip_ws_Cons_less [OF sk1] have l2: "length s2 < length s1" .
    from a sc sk1 obtain v s3 where so: "scan_once ip d (skip_ws s2) = Return (v, s3)"
      by (subst (asm) parse_members.simps) (auto split: result.splits)
    with "2.IH"(1) [OF sc _ sk1] have "length s3 < length (skip_ws s2)" by auto
    with skip_ws_le [of s2] have l3: "length s3 < length s2" by simp
    from a sc sk1 so obtain n s4 where sk3: "skip_ws s3 = n # s4"
      by (subst (asm) parse_members.simps) (auto split: list.splits)
    from skip_ws_Cons_less [OF sk3] have l4: "length s4 < length s3" .
    show "length r < length s"
    proof (cases "n = 125")
      case True
      with a sc sk1 so sk3 have "r = s4"
        by (subst (asm) parse_members.simps) simp
      with l1 l2 l3 l4 show ?thesis by simp
    next
      case False
      with a sc sk1 so sk3 obtain s5 pairs where n: "n = 44" and sk4: "skip_ws s4 = 34 # s5"
        and len: "length s5 < length s" and pm: "parse_members ip d s5 = Return (pairs, r)"
        by (subst (asm) parse_members.simps) (auto split: list.splits if_splits result.splits)
      from "2.IH"(2) [OF sc _ sk1 _ so _ sk3 False _ sk4 _ len] n pm
      have "length r < length s5" by auto
      with len show ?thesis by simp
    qed
  qed
next
  case (3 ip d s)
  show ?case
  proof (intro allI impI)
    fix vs r
    assume a: "parse_elements ip d s = Return (vs, r)"
    then obtain v s1 where so: "scan_once ip d s = Return (v, s1)"
      by (subst (asm) parse_elements.simps) (auto split: result.splits)
    with "3.IH"(1) have l1: "length s1 < length s" by blast
    from a so obtain n s2 where sk: "skip_ws s1 = n # s2"
      by (subst (asm) parse_elements.simps) (auto split: list.splits)
    from skip_ws_Cons_less [OF sk] have l2: "length s2 < length s1" .
    show "length r < length s"
    proof (cases "n = 93")
      case True
      with a so sk have "r = s2"
        by (subst (asm) parse_elements.simps) simp
      with l1 l2 show ?thesis by simp
    next
      case False
      with a so sk obtain vs' where n: "n = 44" and len: "length (skip_ws s2) < length s"
        and pe: "parse_elements ip d (skip_ws s2) = Return (vs', r)"
        by (subst (asm) parse_elements.simps) (auto split: if_splits result.splits)
      from "3.IH"(2) [OF so _ sk False _ len] n pe have "length r < length (skip_ws s2)" by auto
      with len show ?thesis by simp
    qed
  qed
qed

lemma members_guard:
  assumes "scanstring s = Return (key, s1)" and "skip_ws s1 = c # s2"
    and "scan_once ip d (skip_ws s2) = Return (v, s3)"
    and "skip_ws s3 = n # s4" and "skip_ws s4 = q # s5"
  shows "length s5 < length s"
proof -
  have "length s3 < length (skip_ws s2)"
    using scan_shorter(1) [of ip d "skip_ws s2"] assms(3) by blast
  with scanstring_shorter [OF assms(1)] skip_ws_Cons_less [OF assms(2)] skip_ws_le [of s2]
    skip_ws_Cons_less [OF assms(4)] skip_ws_Cons_less [OF assms(5)]
  show ?thesis by linarith
qed

lemma elements_guard:
  assumes "scan_once ip d s = Return (v, s1)" and "skip_ws s1 = n # s2"
  shows "length (skip_ws s2) < length s"
proof -
  have "length s1 < length s"
    using scan_shorter(1) [of ip d s] assms(1) by blast
  with skip_ws_Cons_less [OF assms(2)] skip_ws_le [of s2] show ?thesis by linarith
qed

lemma parse_members_unguarded:
  "parse_members ip d s =
     (case scanstring s of
        Raise e \<Rightarrow> Raise e
      | Return (key, s1) \<Rightarrow>
          (case skip_ws s1 of
             [] \<Rightarrow> Raise JSONDecodeError
           | colon # s2 \<Rightarrow>
               if colon \<noteq> 58 then Raise JSONDecodeError
               else
                 (case scan_once ip d (skip_ws s2) of
                    Raise e \<Rightarrow> Raise e
                  | Return (v, s3) \<Rightarrow>
                      (case skip_ws s3 of
                         [] \<Rightarrow> Raise JSONDecodeError
                       | n # s4 \<Rightarrow>
                           if n = 125 then Return ([(PStr key, v)], s4)
                           else if n \<noteq> 44 then Raise JSONDecodeError
                           else
                             (case skip_ws s4 of
                                [] \<Rightarrow> Raise JSONDecodeError
                              | q # s5 \<Rightarrow>
                                  if q \<noteq> 34 then Raise JSONDecodeError
                                  else
                                    (case parse_members ip d s5 of
                                       Raise e \<Rightarrow> Raise e
                                     | Return (pairs, r) \<Rightarrow> Return ((PStr key, v) # pairs, r)))))))"
  by (subst parse_members.simps)
    (auto split: result.splits list.splits simp: members_guard)

lemma parse_elements_unguarded:
  "parse_elements ip d s =
     (case scan_once ip d s of
        Raise e \<Rightarrow> Raise e
      | Return (v, s1) \<Rightarrow>
          (case skip_ws s1 of
             [] \<Rightarrow> Raise JSONDecodeError
           | n # s2 \<Rightarrow>
               if n = 93 then Return ([v], s2)
               else if n \<noteq> 44 then Raise JSONDecodeError
               else
                 (case parse_elements ip d (skip_ws s2) of
                    Raise e \<Rightarrow> Raise e
                  | Return (vs, r) \<Rightarrow> Return (v # vs, r))))"
  by (subst parse_elements.simps)
    (auto split: result.splits list.splits simp: elements_guard)

end
